theory Spec2Isabelle
  imports Complex_Main "HOL-Library.Multiset" "HOL-Library.Product_Lexorder"
begin

section \<open>Data model\<close>

text \<open>
  The program is \<^verbatim>\<open>src/app.py\<close>: a Dash application that draws a random graph and,
  when a node is clicked, the induced subgraph on that node's closed neighbourhood.
  The graph object comes from the igraph library; what the program reads of it is the
  vertex count, the edge list and the vertex attribute \<^verbatim>\<open>name\<close>.
\<close>

type_synonym coord = "real \<times> real"

text \<open>
  The state of Python's \<^verbatim>\<open>random\<close> module, as the stream of raw values it will
  produce: entry 0 is the next one.
\<close>

type_synonym rnd = "nat \<Rightarrow> nat"

text \<open>
  The exceptions the program can raise, by cause: \<open>UnpackError\<close> is the ValueError of
  \<^verbatim>\<open>Xn, Yn = zip(*layout)\<close> on a layout with no rows, \<open>KeyError\<close> a missing key of
  \<^verbatim>\<open>community_colors\<close>, \<open>IndexError\<close> a list index out of range,
  \<open>TypeError\<close> the Python binding of igraph refusing to convert an integer to a
  vertex id (a negative one, or one that does not fit 64 bits), and \<open>InternalError\<close>
  igraph's own error for a vertex id that is not below the vertex count.
\<close>

datatype error = UnpackError | KeyError | IndexError | TypeError | InternalError

record graph =
  vcount :: nat
  get_edgelist :: "(nat \<times> nat) list"
  vs_name :: "string list"

text \<open>
  The igraph algorithms whose results the program does not determine: the random graph
  generator, the Fruchterman-Reingold layout and multilevel community detection
  (its result is the membership vector of the clustering). Each draws from the random
  state and returns the state it leaves.
\<close>

record igraph =
  Erdos_Renyi :: "nat \<Rightarrow> nat \<Rightarrow> bool \<Rightarrow> rnd \<Rightarrow> graph \<times> rnd"
  layout_fr :: "graph \<Rightarrow> rnd \<Rightarrow> coord list \<times> rnd"
  community_multilevel :: "graph \<Rightarrow> rnd \<Rightarrow> nat list \<times> rnd"

text \<open>The figure handed to the renderer: plotly's Scatter traces and Layout.\<close>

record axis =
  showgrid :: bool
  zeroline :: bool
  showticklabels :: bool

record margin =
  margin_b :: nat
  margin_l :: nat
  margin_r :: nat
  margin_t :: nat

record go_layout =
  showlegend :: bool
  hovermode :: string
  layout_margin :: margin
  xaxis :: axis
  yaxis :: axis

record marker =
  marker_size :: nat
  marker_color :: "string list"
  marker_line_width :: nat

record line_style =
  line_width :: real
  line_color :: string

text \<open>A property of a trace that the program does not set is \<open>None\<close>.\<close>

record scatter =
  trace_x :: "real option list"
  trace_y :: "real option list"
  trace_mode :: string
  trace_text :: "string list option"
  trace_marker :: "marker option"
  trace_hovertemplate :: "string option"
  trace_customdata :: "nat list option"
  trace_textposition :: "string option"
  trace_name :: "string option"
  trace_line :: "line_style option"
  trace_hoverinfo :: "string option"

record figure =
  fig_data :: "scatter list"
  fig_layout :: go_layout

text \<open>The click event of the renderer: \<^verbatim>\<open>{'points': [{'pointIndex': k}, ...]}\<close>.\<close>

datatype point = Point (pointIndex: int)

datatype clickData = ClickData (points: "point list")

text \<open>
  The module's globals \<^verbatim>\<open>original_graph\<close> and \<^verbatim>\<open>layout\<close>, and the state of the
  random module.
\<close>

record world =
  original_graph :: graph
  layout :: "coord list"
  random_state :: rnd

section \<open>Library functions with a determined result\<close>

text \<open>\<^verbatim>\<open>random.randint(a, b)\<close>: an integer of \<open>[a, b]\<close>, and the state advanced.\<close>

definition randint :: "int \<Rightarrow> int \<Rightarrow> rnd \<Rightarrow> int \<times> rnd" where
  "randint a b r = (a + int (r 0 mod nat (b - a + 1)), (\<lambda>i. r (Suc i)))"

definition hexdigit :: "nat \<Rightarrow> char" where
  "hexdigit d = ''0123456789abcdef'' ! d"

fun hex :: "nat \<Rightarrow> string" where
  "hex n = (if n < 16 then [hexdigit n] else hex (n div 16) @ [hexdigit (n mod 16)])"

declare hex.simps [simp del]

text \<open>The format specification \<^verbatim>\<open>{:02x}\<close>: lower-case hexadecimal, zero-padded to width 2.\<close>

definition format_02x :: "int \<Rightarrow> string" where
  "format_02x i =
     (if i < 0 then CHR ''-'' # hex (nat (- i))
      else (let h = hex (nat i) in if length h < 2 then CHR ''0'' # h else h))"

definition decdigit :: "nat \<Rightarrow> char" where
  "decdigit d = ''0123456789'' ! d"

text \<open>\<^verbatim>\<open>str(i)\<close> of a non-negative integer, as an f-string renders \<^verbatim>\<open>{i}\<close>.\<close>

fun str_nat :: "nat \<Rightarrow> string" where
  "str_nat n = (if n < 10 then [decdigit n] else str_nat (n div 10) @ [decdigit (n mod 10)])"

declare str_nat.simps [simp del]

text \<open>
  Iterating over a VertexClustering: cluster \<open>c\<close> lists, in ascending order, the
  vertices whose membership is \<open>c\<close>; there are \<open>max membership + 1\<close> clusters.
\<close>

definition n_clusters :: "nat list \<Rightarrow> nat" where
  "n_clusters membership = (if membership = [] then 0 else Suc (fold max membership 0))"

definition clusters :: "nat list \<Rightarrow> nat list list" where
  "clusters membership =
     map (\<lambda>c. filter (\<lambda>i. membership ! i = c) [0..<length membership])
       [0..<n_clusters membership]"

text \<open>
  \<^verbatim>\<open>g.degree()\<close>: for every vertex the number of edge ends at it, so that a self-loop
  counts twice.
\<close>

definition degree :: "graph \<Rightarrow> nat list" where
  "degree g =
     map (\<lambda>v. length (filter (\<lambda>e. fst e = v) (get_edgelist g)) +
              length (filter (\<lambda>e. snd e = v) (get_edgelist g)))
       [0..<vcount g]"

definition adjacent :: "graph \<Rightarrow> nat \<Rightarrow> nat \<Rightarrow> bool" where
  "adjacent g v u = list_ex (\<lambda>e. e = (v, u) \<or> e = (u, v)) (get_edgelist g)"

text \<open>
  \<^verbatim>\<open>g.neighborhood(vertex)\<close> with the defaults \<^verbatim>\<open>order=1, mode="all"\<close>: the vertex
  itself, then each of its neighbours once, in ascending order. A vertex id outside
  \<open>0..vcount-1\<close> is refused: by the binding with a TypeError when it is negative or
  at least \<open>2^63\<close>, and otherwise by igraph with its InternalError. (A graph of igraph
  has fewer than \<open>2^63\<close> vertices, so an id below the vertex count always converts.)
\<close>

definition neighborhood :: "graph \<Rightarrow> int \<Rightarrow> error + nat list" where
  "neighborhood g vertex =
     (if 0 \<le> vertex \<and> vertex < int (vcount g) then
        (let v = nat vertex
         in Inr (v # filter (\<lambda>u. u \<noteq> v \<and> adjacent g v u) [0..<vcount g]))
      else if vertex < 0 \<or> 2 ^ 63 \<le> vertex then Inl TypeError
      else Inl InternalError)"

text \<open>
  \<^verbatim>\<open>g.subgraph(vertices)\<close>: the induced subgraph. The vertices kept are renumbered
  \<open>0, 1, ...\<close> in ascending order of their ids in \<open>g\<close> and keep their attributes;
  \<open>kept_vertices\<close> is that renumbering, new id to old id, and \<open>index_of\<close> its inverse.
  The edges kept are those with both ends kept. igraph chooses how to build the result
  from the share of vertices asked for: for more than half of them it copies the graph
  and deletes the rest, which leaves the edges in their order in \<open>g\<close>; otherwise it
  builds the subgraph from scratch, vertex by vertex, which lists the edges by their
  larger end and then by their smaller end.
\<close>

definition kept_vertices :: "graph \<Rightarrow> nat list \<Rightarrow> nat list" where
  "kept_vertices g vertices = filter (\<lambda>v. v \<in> set vertices) [0..<vcount g]"

definition index_of :: "nat list \<Rightarrow> nat \<Rightarrow> nat" where
  "index_of keep v = length (takeWhile (\<lambda>w. w \<noteq> v) keep)"

definition edge_key :: "nat \<times> nat \<Rightarrow> nat \<times> nat" where
  "edge_key e = (max (fst e) (snd e), min (fst e) (snd e))"

definition induced_edges :: "graph \<Rightarrow> nat list \<Rightarrow> (nat \<times> nat) list" where
  "induced_edges g vertices =
     (let keep = kept_vertices g vertices;
          es = map (\<lambda>(u, v). (index_of keep u, index_of keep v))
                 (filter (\<lambda>(u, v). u \<in> set keep \<and> v \<in> set keep) (get_edgelist g))
      in if vcount g < 2 * length vertices then es else sort_key edge_key es)"

definition subgraph :: "graph \<Rightarrow> nat list \<Rightarrow> error + graph" where
  "subgraph g vertices =
     (if list_all (\<lambda>v. v < vcount g) vertices then
        (let keep = kept_vertices g vertices
         in Inr \<lparr>vcount = length keep,
                 get_edgelist = induced_edges g vertices,
                 vs_name = map (\<lambda>v. vs_name g ! v) keep\<rparr>)
      else Inl InternalError)"

section \<open>The program\<close>

subsection \<open>create_graph\<close>

definition node_names :: "string list" where
  "node_names = map (\<lambda>i. ''Node-'' @ str_nat i) [0..<50]"

text \<open>
  \<^verbatim>\<open>g.vs["name"] = node_names\<close> sets the attribute \<^verbatim>\<open>name\<close> of the generated graph to
  the list of 50 names; the edges and the vertex count stay as generated.
\<close>

definition create_graph :: "igraph \<Rightarrow> rnd \<Rightarrow> (graph \<times> coord list) \<times> rnd" where
  "create_graph lib r =
     (let (g0, r1) = Erdos_Renyi lib 50 100 False r;
          g = g0\<lparr>vs_name := node_names\<rparr>;
          (lay, r2) = layout_fr lib g r1
      in ((g, lay), r2))"

subsection \<open>create_empty_figure\<close>

definition hidden_axis :: axis where
  "hidden_axis = \<lparr>showgrid = False, zeroline = False, showticklabels = False\<rparr>"

definition figure_layout :: go_layout where
  "figure_layout =
     \<lparr>showlegend = False, hovermode = ''closest'',
      layout_margin = \<lparr>margin_b = 0, margin_l = 0, margin_r = 0, margin_t = 0\<rparr>,
      xaxis = hidden_axis, yaxis = hidden_axis\<rparr>"

definition create_empty_figure :: figure where
  "create_empty_figure = \<lparr>fig_data = [], fig_layout = figure_layout\<rparr>"

subsection \<open>create_network_figure\<close>

definition format_color :: "int \<Rightarrow> int \<Rightarrow> int \<Rightarrow> string" where
  "format_color a b c = ''#'' @ format_02x a @ format_02x b @ format_02x c"

text \<open>The inner loop: \<^verbatim>\<open>for node in nodes: community_colors[node] = color\<close>.\<close>

fun color_nodes :: "(nat \<rightharpoonup> string) \<Rightarrow> string \<Rightarrow> nat list \<Rightarrow> (nat \<rightharpoonup> string)" where
  "color_nodes community_colors color [] = community_colors"
| "color_nodes community_colors color (node # nodes) =
     color_nodes (community_colors(node \<mapsto> color)) color nodes"

text \<open>The outer loop over the communities: three draws and one colour for each.\<close>

fun color_communities ::
  "nat list list \<Rightarrow> (nat \<rightharpoonup> string) \<Rightarrow> rnd \<Rightarrow> (nat \<rightharpoonup> string) \<times> rnd" where
  "color_communities [] community_colors r = (community_colors, r)"
| "color_communities (nodes # communities) community_colors r =
     (let (a, r1) = randint 0 255 r;
          (b, r2) = randint 0 255 r1;
          (c, r3) = randint 0 255 r2;
          color = format_color a b c
      in color_communities communities (color_nodes community_colors color nodes) r3)"

text \<open>\<^verbatim>\<open>[community_colors[i] for i in range(len(g.vs))]\<close>: a missing key raises.\<close>

fun lookup_colors :: "(nat \<rightharpoonup> string) \<Rightarrow> nat list \<Rightarrow> error + string list" where
  "lookup_colors community_colors [] = Inr []"
| "lookup_colors community_colors (i # rest) =
     (case community_colors i of
        None \<Rightarrow> Inl KeyError
      | Some color \<Rightarrow>
          (case lookup_colors community_colors rest of
             Inl e \<Rightarrow> Inl e
           | Inr colors \<Rightarrow> Inr (color # colors)))"

text \<open>
  The loop over the edge list: each edge extends \<^verbatim>\<open>edge_x\<close> and \<^verbatim>\<open>edge_y\<close> by its two
  end points and \<^verbatim>\<open>None\<close>. Indexing the layout out of range raises.
\<close>

fun edge_segments ::
  "coord list \<Rightarrow> (nat \<times> nat) list \<Rightarrow> real option list \<Rightarrow> real option list \<Rightarrow>
   error + (real option list \<times> real option list)" where
  "edge_segments lay [] edge_x edge_y = Inr (edge_x, edge_y)"
| "edge_segments lay (edge # edges) edge_x edge_y =
     (if fst edge < length lay \<and> snd edge < length lay then
        (let (x0, y0) = lay ! fst edge;
             (x1, y1) = lay ! snd edge
         in edge_segments lay edges
              (edge_x @ [Some x0, Some x1, None]) (edge_y @ [Some y0, Some y1, None]))
      else Inl IndexError)"

definition node_trace :: "graph \<Rightarrow> coord list \<Rightarrow> string list \<Rightarrow> nat list \<Rightarrow> scatter" where
  "node_trace g lay colors node_degrees =
     \<lparr>trace_x = map (\<lambda>p. Some (fst p)) lay,
      trace_y = map (\<lambda>p. Some (snd p)) lay,
      trace_mode = ''markers+text'',
      trace_text = Some (vs_name g),
      trace_marker = Some \<lparr>marker_size = 10, marker_color = colors, marker_line_width = 2\<rparr>,
      trace_hovertemplate = Some ''%{text}<br>Degree: %{customdata}'',
      trace_customdata = Some node_degrees,
      trace_textposition = Some ''top center'',
      trace_name = Some '''',
      trace_line = None,
      trace_hoverinfo = None\<rparr>"

definition edge_trace :: scatter where
  "edge_trace =
     \<lparr>trace_x = [],
      trace_y = [],
      trace_mode = ''lines'',
      trace_text = None,
      trace_marker = None,
      trace_hovertemplate = None,
      trace_customdata = None,
      trace_textposition = None,
      trace_name = None,
      trace_line = Some \<lparr>line_width = 1 / 2, line_color = ''#888''\<rparr>,
      trace_hoverinfo = Some ''none''\<rparr>"

definition create_network_figure ::
  "igraph \<Rightarrow> graph \<Rightarrow> coord list \<Rightarrow> rnd \<Rightarrow> (error + figure) \<times> rnd" where
  "create_network_figure lib g lay r =
     (if lay = [] then (Inl UnpackError, r)
      else
        (let (membership, r1) = community_multilevel lib g r;
             (community_colors, r2) = color_communities (clusters membership) Map.empty r1;
             node_degrees = degree g
         in case lookup_colors community_colors [0..<vcount g] of
              Inl e \<Rightarrow> (Inl e, r2)
            | Inr colors \<Rightarrow>
                (case edge_segments lay (get_edgelist g) [] [] of
                   Inl e \<Rightarrow> (Inl e, r2)
                 | Inr (edge_x, edge_y) \<Rightarrow>
                     (Inr \<lparr>fig_data =
                             [edge_trace\<lparr>trace_x := edge_x, trace_y := edge_y\<rparr>,
                              node_trace g lay colors node_degrees],
                           fig_layout = figure_layout\<rparr>,
                      r2))))"

subsection \<open>The callbacks\<close>

definition update_original_network_plot ::
  "igraph \<Rightarrow> world \<Rightarrow> 'a \<Rightarrow> (error + figure) \<times> world" where
  "update_original_network_plot lib w relayoutData =
     (let (res, r') = create_network_figure lib (original_graph w) (layout w) (random_state w)
      in (res, w\<lparr>random_state := r'\<rparr>))"

definition update_subgraph_plot ::
  "igraph \<Rightarrow> world \<Rightarrow> clickData option \<Rightarrow> (error + figure) \<times> world" where
  "update_subgraph_plot lib w clickData =
     (let subgraph_figure = create_empty_figure
      in case clickData of
           None \<Rightarrow> (Inr subgraph_figure, w)
         | Some cd \<Rightarrow>
             (case points cd of
                [] \<Rightarrow> (Inl IndexError, w)
              | p # _ \<Rightarrow>
                  (let clicked_node_index = pointIndex p
                   in case neighborhood (original_graph w) clicked_node_index of
                        Inl e \<Rightarrow> (Inl e, w)
                      | Inr neighbors \<Rightarrow>
                          (case subgraph (original_graph w) neighbors of
                             Inl e \<Rightarrow> (Inl e, w)
                           | Inr sg \<Rightarrow>
                               (let (subgraph_layout, r1) = layout_fr lib sg (random_state w);
                                    (res, r2) = create_network_figure lib sg subgraph_layout r1
                                in (res, w\<lparr>random_state := r2\<rparr>))))))"

subsection \<open>Start-up and the dispatch of callbacks\<close>

text \<open>
  Importing the module runs \<^verbatim>\<open>original_graph, layout = create_graph()\<close> once. After
  that the Dash server calls the two callbacks, one at a time, in whatever order the
  browser's events arrive.
\<close>

definition startup :: "igraph \<Rightarrow> rnd \<Rightarrow> world" where
  "startup lib r =
     (let ((g, lay), r') = create_graph lib r
      in \<lparr>original_graph = g, layout = lay, random_state = r'\<rparr>)"

datatype callback = Relayout | Click "clickData option"

fun dispatch :: "igraph \<Rightarrow> world \<Rightarrow> callback \<Rightarrow> world" where
  "dispatch lib w Relayout = snd (update_original_network_plot lib w ())"
| "dispatch lib w (Click clickData) = snd (update_subgraph_plot lib w clickData)"

definition serve :: "igraph \<Rightarrow> world \<Rightarrow> callback list \<Rightarrow> world" where
  "serve lib w callbacks = foldl (dispatch lib) w callbacks"

section \<open>What the program relies on from igraph\<close>

text \<open>
  Every igraph graph object has edges between its own vertices and one value of each
  vertex attribute per vertex.
\<close>

definition wf_graph :: "graph \<Rightarrow> bool" where
  "wf_graph g \<longleftrightarrow>
     list_all (\<lambda>e. fst e < vcount g \<and> snd e < vcount g) (get_edgelist g) \<and>
     length (vs_name g) = vcount g"

text \<open>
  The generator \<^verbatim>\<open>Erdos_Renyi(n, m)\<close> returns a graph of \<open>n\<close> vertices and \<open>m\<close> edges
  whenever \<open>m\<close> is at most the number of vertex pairs (it raises otherwise).
\<close>

definition generator_contract :: "igraph \<Rightarrow> bool" where
  "generator_contract lib \<longleftrightarrow>
     (\<forall>n m directed r. m \<le> n * (n - 1) div 2 \<longrightarrow>
        vcount (fst (Erdos_Renyi lib n m directed r)) = n \<and>
        length (get_edgelist (fst (Erdos_Renyi lib n m directed r))) = m \<and>
        list_all (\<lambda>e. fst e < n \<and> snd e < n)
          (get_edgelist (fst (Erdos_Renyi lib n m directed r))))"

text \<open>A layout has one row per vertex.\<close>

definition layout_contract :: "igraph \<Rightarrow> bool" where
  "layout_contract lib \<longleftrightarrow> (\<forall>g r. length (fst (layout_fr lib g r)) = vcount g)"

text \<open>The membership vector of a clustering has one entry per vertex.\<close>

definition community_contract :: "igraph \<Rightarrow> bool" where
  "community_contract lib \<longleftrightarrow>
     (\<forall>g r. length (fst (community_multilevel lib g r)) = vcount g)"

text \<open>
  The colour that the loop over the communities gives community \<open>j\<close> when it starts in
  random state \<open>r\<close>: draws \<open>3j\<close>, \<open>3j+1\<close> and \<open>3j+2\<close>.
\<close>

definition nth_color :: "rnd \<Rightarrow> nat \<Rightarrow> string" where
  "nth_color r j =
     format_color (int (r (3 * j) mod 256)) (int (r (3 * j + 1) mod 256))
       (int (r (3 * j + 2) mod 256))"

text \<open>The coordinate lists of the edge trace: two end points and a gap for each edge.\<close>

definition segments :: "(coord \<Rightarrow> real) \<Rightarrow> coord list \<Rightarrow> (nat \<times> nat) list \<Rightarrow> real option list" where
  "segments proj lay es =
     concat (map (\<lambda>e. [Some (proj (lay ! fst e)), Some (proj (lay ! snd e)), None]) es)"

section \<open>A small instance\<close>

text \<open>
  The example of the specification: vertices 0 to 3, edges 0-1 and 1-2. The library
  instance is a deterministic stand-in with the shape of igraph's results: the first
  \<open>m\<close> of all vertex pairs for the generator, one coordinate pair per vertex for the
  layout, and a membership vector with one entry per vertex for community detection.
\<close>

definition demo_graph :: graph where
  "demo_graph =
     \<lparr>vcount = 4, get_edgelist = [(0, 1), (1, 2)],
      vs_name = [''Node-0'', ''Node-1'', ''Node-2'', ''Node-3'']\<rparr>"

definition all_pairs :: "nat \<Rightarrow> (nat \<times> nat) list" where
  "all_pairs n = concat (map (\<lambda>i. map (\<lambda>j. (j, i)) [0..<i]) [0..<n])"

definition demo_lib :: igraph where
  "demo_lib =
     \<lparr>Erdos_Renyi = (\<lambda>n m directed r.
        (\<lparr>vcount = n, get_edgelist = take m (all_pairs n), vs_name = []\<rparr>,
         (\<lambda>i. r (i + m)))),
      layout_fr = (\<lambda>g r. (map (\<lambda>i. (real i, real (i * i))) [0..<vcount g], (\<lambda>i. r (Suc i)))),
      community_multilevel = (\<lambda>g r. (map (\<lambda>i. i mod 2) [0..<vcount g], r))\<rparr>"

definition demo_rnd :: rnd where
  "demo_rnd = (\<lambda>i. 37 * i + 11)"

definition demo_world :: world where
  "demo_world =
     \<lparr>original_graph = demo_graph,
      layout = [(0, 0), (1, 1), (2, 0), (3, 1)],
      random_state = demo_rnd\<rparr>"

section \<open>The click handler without a click\<close>

text \<open>
  Claim C3. Called with no click event (\<^verbatim>\<open>None\<close>), the click handler returns the empty
  figure: no data traces (so no node marker and no edge segment), the legend disabled,
  and grid, zero line and tick labels hidden on both axes. The result is the same for
  every library instance and every state of the globals, and the call leaves that state,
  the random state included, as it was.
\<close>

theorem update_subgraph_plot_None:
  "update_subgraph_plot lib w None = (Inr create_empty_figure, w) \<and>
   fig_data create_empty_figure = [] \<and>
   showlegend (fig_layout create_empty_figure) = False \<and>
   showgrid (xaxis (fig_layout create_empty_figure)) = False \<and>
   zeroline (xaxis (fig_layout create_empty_figure)) = False \<and>
   showticklabels (xaxis (fig_layout create_empty_figure)) = False \<and>
   showgrid (yaxis (fig_layout create_empty_figure)) = False \<and>
   zeroline (yaxis (fig_layout create_empty_figure)) = False \<and>
   showticklabels (yaxis (fig_layout create_empty_figure)) = False"
  by (simp add: update_subgraph_plot_def create_empty_figure_def figure_layout_def
      hidden_axis_def)

theorem update_subgraph_plot_None_witness:
  "update_subgraph_plot demo_lib demo_world None =
     (Inr \<lparr>fig_data = [], fig_layout = figure_layout\<rparr>, demo_world)"
  using update_subgraph_plot_None [of demo_lib demo_world]
  by (simp add: create_empty_figure_def)

section \<open>A click outside the graph\<close>

lemma neighborhood_invalid:
  "k < 0 \<or> int (vcount g) \<le> k \<Longrightarrow>
   neighborhood g k = Inl (if k < 0 \<or> 2 ^ 63 \<le> k then TypeError else InternalError)"
  by (auto simp: neighborhood_def)

text \<open>
  Claim C7, as the code has it. A click event whose node index \<open>k\<close> is outside
  \<open>[0, n)\<close>, \<open>n\<close> the vertex count of the session graph, makes the click handler fail,
  but not with one error kind of its own: the call of \<^verbatim>\<open>neighborhood\<close> raises the
  binding's TypeError when \<open>k\<close> is negative or at least \<open>2^63\<close>, and igraph's
  InternalError when \<open>n \<le> k < 2^63\<close>. The handler has no exception handler, so it
  returns that error and no figure, in one pass with no second attempt, and the globals
  (graph, layout, and the random state too) are as before the call.
\<close>

theorem update_subgraph_plot_invalid_index:
  assumes "k < 0 \<or> int (vcount (original_graph w)) \<le> k"
  shows "update_subgraph_plot lib w (Some (ClickData (Point k # ps))) =
           (Inl (if k < 0 \<or> 2 ^ 63 \<le> k then TypeError else InternalError), w)"
  using assms by (simp add: update_subgraph_plot_def neighborhood_invalid)

theorem update_subgraph_plot_invalid_index_witness:
  "update_subgraph_plot demo_lib demo_world (Some (ClickData [Point 4])) =
     (Inl InternalError, demo_world) \<and>
   update_subgraph_plot demo_lib demo_world (Some (ClickData [Point (- 1)])) =
     (Inl TypeError, demo_world) \<and>
   update_subgraph_plot demo_lib demo_world (Some (ClickData [Point (2 ^ 63)])) =
     (Inl TypeError, demo_world)"
proof -
  have big: "(4::int) < 0 \<or> int (vcount (original_graph demo_world)) \<le> 4"
    by (simp add: demo_world_def demo_graph_def)
  have neg: "(- 1::int) < 0 \<or> int (vcount (original_graph demo_world)) \<le> - 1"
    by simp
  have huge: "(2 ^ 63::int) < 0 \<or> int (vcount (original_graph demo_world)) \<le> 2 ^ 63"
    by (simp add: demo_world_def demo_graph_def)
  show ?thesis
    using update_subgraph_plot_invalid_index [OF big, of demo_lib "[]"]
      update_subgraph_plot_invalid_index [OF neg, of demo_lib "[]"]
      update_subgraph_plot_invalid_index [OF huge, of demo_lib "[]"]
    by simp
qed

text \<open>
  The claim as the specification states it, one error kind for every index outside the
  graph, fails on the example: index 4 of the four-vertex graph and index -1 are both
  outside \<open>[0, 4)\<close>, and the handler fails with two different errors.
\<close>

theorem update_subgraph_plot_error_kinds_differ:
  "fst (update_subgraph_plot demo_lib demo_world (Some (ClickData [Point 4]))) =
     Inl InternalError \<and>
   fst (update_subgraph_plot demo_lib demo_world (Some (ClickData [Point (- 1)]))) =
     Inl TypeError \<and>
   fst (update_subgraph_plot demo_lib demo_world (Some (ClickData [Point 4]))) \<noteq>
   fst (update_subgraph_plot demo_lib demo_world (Some (ClickData [Point (- 1)])))"
  by (simp add: update_subgraph_plot_def neighborhood_def demo_world_def demo_graph_def)

section \<open>The callbacks leave the session graph alone\<close>

lemma update_subgraph_plot_graph:
  "original_graph (snd (update_subgraph_plot lib w clickData)) = original_graph w"
  by (simp add: update_subgraph_plot_def Let_def
      split: option.splits list.splits sum.splits prod.splits)

lemma update_subgraph_plot_layout:
  "layout (snd (update_subgraph_plot lib w clickData)) = layout w"
  by (simp add: update_subgraph_plot_def Let_def
      split: option.splits list.splits sum.splits prod.splits)

lemma dispatch_graph: "original_graph (dispatch lib w cb) = original_graph w"
  by (cases cb)
    (simp_all add: update_subgraph_plot_graph update_original_network_plot_def
      split: prod.splits)

lemma dispatch_layout: "layout (dispatch lib w cb) = layout w"
  by (cases cb)
    (simp_all add: update_subgraph_plot_layout update_original_network_plot_def
      split: prod.splits)

lemma serve_graph: "original_graph (serve lib w cbs) = original_graph w"
  unfolding serve_def
  by (induction cbs arbitrary: w) (simp_all add: dispatch_graph)

lemma serve_layout: "layout (serve lib w cbs) = layout w"
  unfolding serve_def
  by (induction cbs arbitrary: w) (simp_all add: dispatch_layout)

lemma startup_graph: "original_graph (startup lib r) = fst (fst (create_graph lib r))"
  by (simp add: startup_def split: prod.splits)

lemma startup_layout: "layout (startup lib r) = snd (fst (create_graph lib r))"
  by (simp add: startup_def split: prod.splits)

text \<open>
  Claim C8. Handling a click never changes the session state. For any click event
  (none, a valid index, an invalid index, or a malformed event), the graph (vertex
  count, edge list and names) and the stored layout after the call are those before it;
  and after start-up followed by any sequence of callbacks and then a click, they are
  still the graph and layout that \<open>create_graph\<close> returned at start-up.
\<close>

theorem update_subgraph_plot_frame:
  "original_graph (snd (update_subgraph_plot lib w clickData)) = original_graph w \<and>
   layout (snd (update_subgraph_plot lib w clickData)) = layout w \<and>
   original_graph (snd (update_subgraph_plot lib (serve lib (startup lib r) cbs) clickData)) =
     fst (fst (create_graph lib r)) \<and>
   layout (snd (update_subgraph_plot lib (serve lib (startup lib r) cbs) clickData)) =
     snd (fst (create_graph lib r))"
  by (simp add: update_subgraph_plot_graph update_subgraph_plot_layout serve_graph
      serve_layout startup_graph startup_layout)

section \<open>The figure builder\<close>

lemma edge_segments_ok:
  "list_all (\<lambda>e. fst e < length lay \<and> snd e < length lay) es \<Longrightarrow>
   edge_segments lay es ex ey = Inr (ex @ segments fst lay es, ey @ segments snd lay es)"
  by (induction es arbitrary: ex ey) (simp_all add: case_prod_beta segments_def)

lemma lookup_colors_ok:
  "list_all (\<lambda>i. cc i \<noteq> None) xs \<Longrightarrow> lookup_colors cc xs = Inr (map (\<lambda>i. the (cc i)) xs)"
  by (induction xs) auto

lemma color_nodes_apply:
  "color_nodes cc col ns v = (if v \<in> set ns then Some col else cc v)"
  by (induction ns arbitrary: cc) auto

lemma color_communities_other:
  "v \<notin> set (concat cs) \<Longrightarrow> fst (color_communities cs cc r) v = cc v"
  by (induction cs arbitrary: cc r) (auto simp: color_nodes_apply case_prod_beta Let_def)

lemma color_communities_rnd:
  "snd (color_communities cs cc r) = (\<lambda>i. r (i + 3 * length cs))"
proof (induction cs arbitrary: cc r)
  case Nil
  then show ?case by simp
next
  case (Cons C rest)
  have sh: "i + (3 + 3 * length rest) = Suc (Suc (Suc (i + 3 * length rest)))" for i
    by simp
  show ?case
    by (simp add: case_prod_beta Let_def randint_def Cons.IH sh)
qed

lemma nth_color_shift:
  "nth_color (\<lambda>i. r (Suc (Suc (Suc i)))) j = nth_color r (Suc j)"
proof -
  have sh: "3 + 3 * j = Suc (Suc (Suc (3 * j)))" "4 + 3 * j = Suc (Suc (Suc (Suc (3 * j))))"
    "5 + 3 * j = Suc (Suc (Suc (Suc (Suc (3 * j)))))"
    by simp_all
  show ?thesis
    by (simp add: nth_color_def sh)
qed

lemma color_communities_member:
  "j < length cs \<Longrightarrow> v \<in> set (cs ! j) \<Longrightarrow>
   (\<And>j'. j < j' \<Longrightarrow> j' < length cs \<Longrightarrow> v \<notin> set (cs ! j')) \<Longrightarrow>
   fst (color_communities cs cc r) v = Some (nth_color r j)"
proof (induction cs arbitrary: cc r j)
  case Nil
  then show ?case by simp
next
  case (Cons C rest)
  show ?case
  proof (cases j)
    case 0
    with Cons.prems(1,2) have v: "v \<in> set C"
      by simp
    have nv: "v \<notin> set (concat rest)"
    proof
      assume "v \<in> set (concat rest)"
      then obtain D where "D \<in> set rest" "v \<in> set D"
        by auto
      then obtain i where "i < length rest" "v \<in> set (rest ! i)"
        by (auto simp: in_set_conv_nth)
      with Cons.prems(3) [of "Suc i"] 0 show False
        by simp
    qed
    show ?thesis
      using v 0
      by (simp add: case_prod_beta Let_def color_communities_other [OF nv] color_nodes_apply
          randint_def nth_color_def)
  next
    case (Suc j')
    with Cons.prems(1,2) have j': "j' < length rest" and v: "v \<in> set (rest ! j')"
      by auto
    have later: "v \<notin> set (rest ! i)" if "j' < i" "i < length rest" for i
      using Cons.prems(3) [of "Suc i"] that Suc by simp
    show ?thesis
      using Cons.IH [OF j' v later] Suc
      by (simp add: case_prod_beta Let_def randint_def nth_color_shift)
  qed
qed

lemma fold_max_ge: "x \<in> set xs \<Longrightarrow> x \<le> fold max xs (a::nat)"
proof (induction xs arbitrary: a)
  case Nil
  then show ?case by simp
next
  case (Cons y ys)
  have mono: "a \<le> fold max ys a" for a :: nat
    by (induction ys arbitrary: a) (auto intro: order_trans [OF max.cobounded2])
  show ?case
  proof (cases "x = y")
    case True
    then show ?thesis using mono [of "max y a"] by simp
  next
    case False
    with Cons show ?thesis by simp
  qed
qed

lemma membership_lt_n_clusters:
  "i < length mem \<Longrightarrow> mem ! i < n_clusters mem"
  using fold_max_ge [of "mem ! i" mem 0] by (auto simp: n_clusters_def less_Suc_eq_le)

lemma length_clusters: "length (clusters mem) = n_clusters mem"
  by (simp add: clusters_def)

lemma clusters_nth:
  "c < n_clusters mem \<Longrightarrow> clusters mem ! c = filter (\<lambda>i. mem ! i = c) [0..<length mem]"
  by (simp add: clusters_def)

lemma clusters_color:
  assumes "i < length mem"
  shows "fst (color_communities (clusters mem) cc r) i = Some (nth_color r (mem ! i))"
proof (rule color_communities_member)
  show "mem ! i < length (clusters mem)"
    using assms by (simp add: length_clusters membership_lt_n_clusters)
  show "i \<in> set (clusters mem ! (mem ! i))"
    using assms by (simp add: clusters_nth membership_lt_n_clusters)
  show "i \<notin> set (clusters mem ! j')" if "mem ! i < j'" "j' < length (clusters mem)" for j'
    using that by (simp add: clusters_nth length_clusters)
qed


lemma length_segments: "length (segments proj lay es) = 3 * length es"
  by (induction es) (simp_all add: segments_def)

lemma segments_nth:
  "j < length es \<Longrightarrow>
   segments proj lay es ! (3 * j) = Some (proj (lay ! fst (es ! j))) \<and>
   segments proj lay es ! Suc (3 * j) = Some (proj (lay ! snd (es ! j))) \<and>
   segments proj lay es ! Suc (Suc (3 * j)) = None"
proof (induction es arbitrary: j)
  case Nil
  then show ?case by simp
next
  case (Cons e es)
  show ?case
  proof (cases j)
    case 0
    then show ?thesis by (simp add: segments_def)
  next
    case (Suc j')
    have sh: "3 * Suc j' = Suc (Suc (Suc (3 * j')))" by simp
    from Suc Cons.prems have "j' < length es" by simp
    from Cons.IH [OF this] Suc show ?thesis
      by (simp add: segments_def sh)
  qed
qed

lemma hexdigit_in: "d < 16 \<Longrightarrow> hexdigit d \<in> set ''0123456789abcdef''"
  unfolding hexdigit_def by (rule nth_mem) simp

lemma hex_small: "n < 16 \<Longrightarrow> hex n = [hexdigit n]"
  by (simp add: hex.simps)

lemma hex_byte: "16 \<le> n \<Longrightarrow> n < 256 \<Longrightarrow> hex n = [hexdigit (n div 16), hexdigit (n mod 16)]"
  by (subst hex.simps) (simp add: hex_small less_mult_imp_div_less)

lemma format_02x_byte:
  assumes "n < 256"
  shows "length (format_02x (int n)) = 2 \<and>
         set (format_02x (int n)) \<subseteq> set ''0123456789abcdef''"
proof (cases "n < 16")
  case True
  then show ?thesis
    using hexdigit_in [of n] by (simp add: format_02x_def hex_small)
next
  case False
  then have "hex n = [hexdigit (n div 16), hexdigit (n mod 16)]"
    using assms by (simp add: hex_byte)
  moreover have "n div 16 < 16" using assms by (simp add: less_mult_imp_div_less)
  ultimately show ?thesis
    using hexdigit_in [of "n div 16"] hexdigit_in [of "n mod 16"]
    by (simp add: format_02x_def)
qed

lemma nth_color_shape:
  "length (nth_color r j) = 7 \<and> hd (nth_color r j) = CHR ''#'' \<and>
   set (tl (nth_color r j)) \<subseteq> set ''0123456789abcdef''"
proof -
  have b: "r i mod 256 < 256" for i by simp
  note f = format_02x_byte [OF b]
  show ?thesis
    unfolding nth_color_def format_color_def
    using f [of "3 * j"] f [of "3 * j + 1"] f [of "3 * j + 2"]
    by (simp del: set_simps)
qed

lemma create_network_figure_ok:
  assumes wf: "wf_graph g" and lay: "length lay = vcount g" and pos: "0 < vcount g"
    and mem: "length (fst (community_multilevel lib g r)) = vcount g"
  shows "create_network_figure lib g lay r =
     (Inr \<lparr>fig_data =
             [edge_trace\<lparr>trace_x := segments fst lay (get_edgelist g),
                         trace_y := segments snd lay (get_edgelist g)\<rparr>,
              node_trace g lay
                (map (\<lambda>i. nth_color (snd (community_multilevel lib g r))
                            (fst (community_multilevel lib g r) ! i)) [0..<vcount g])
                (degree g)],
           fig_layout = figure_layout\<rparr>,
      (\<lambda>i. snd (community_multilevel lib g r)
              (i + 3 * n_clusters (fst (community_multilevel lib g r)))))"
proof -
  obtain membership r1 where cm: "community_multilevel lib g r = (membership, r1)"
    by (cases "community_multilevel lib g r")
  obtain cc r2 where col: "color_communities (clusters membership) Map.empty r1 = (cc, r2)"
    by (cases "color_communities (clusters membership) Map.empty r1")
  have len: "length membership = vcount g"
    using mem cm by simp
  have cc: "cc i = Some (nth_color r1 (membership ! i))" if "i < vcount g" for i
    using clusters_color [of i membership Map.empty r1] that len col by simp
  have r2: "r2 = (\<lambda>i. r1 (i + 3 * n_clusters membership))"
    using color_communities_rnd [of "clusters membership" Map.empty r1] col
    by (simp add: length_clusters)
  have "list_all (\<lambda>i. cc i \<noteq> None) [0..<vcount g]"
    by (simp add: list_all_iff cc)
  then have "lookup_colors cc [0..<vcount g] = Inr (map (\<lambda>i. the (cc i)) [0..<vcount g])"
    by (rule lookup_colors_ok)
  also have "map (\<lambda>i. the (cc i)) [0..<vcount g] =
      map (\<lambda>i. nth_color r1 (membership ! i)) [0..<vcount g]"
    by (simp add: cc)
  finally have look: "lookup_colors cc [0..<vcount g] =
      Inr (map (\<lambda>i. nth_color r1 (membership ! i)) [0..<vcount g])" .
  have "list_all (\<lambda>e. fst e < length lay \<and> snd e < length lay) (get_edgelist g)"
    using wf lay by (simp add: wf_graph_def)
  then have seg: "edge_segments lay (get_edgelist g) [] [] =
      Inr (segments fst lay (get_edgelist g), segments snd lay (get_edgelist g))"
    using edge_segments_ok [of lay "get_edgelist g" "[]" "[]"] by simp
  have "lay \<noteq> []"
    using lay pos by auto
  then show ?thesis
    by (simp add: create_network_figure_def cm col look seg r2)
qed

lemma degree_nth:
  "v < vcount g \<Longrightarrow>
   degree g ! v =
     card {i. i < length (get_edgelist g) \<and>
              (fst (get_edgelist g ! i) = v \<or> snd (get_edgelist g ! i) = v)} +
     card {i. i < length (get_edgelist g) \<and> get_edgelist g ! i = (v, v)}"
proof -
  let ?es = "get_edgelist g"
  let ?A = "{i. i < length ?es \<and> fst (?es ! i) = v}"
  let ?B = "{i. i < length ?es \<and> snd (?es ! i) = v}"
  assume v: "v < vcount g"
  have "degree g ! v = card ?A + card ?B"
    using v by (simp add: degree_def length_filter_conv_card)
  also have "\<dots> = card (?A \<union> ?B) + card (?A \<inter> ?B)"
    by (rule card_Un_Int) simp_all
  also have "?A \<union> ?B = {i. i < length ?es \<and> (fst (?es ! i) = v \<or> snd (?es ! i) = v)}"
    by auto
  also have "?A \<inter> ?B = {i. i < length ?es \<and> ?es ! i = (v, v)}"
    by (auto simp: prod_eq_iff)
  finally show ?thesis .
qed

lemma length_degree: "length (degree g) = vcount g"
  by (simp add: degree_def)

lemma demo_graph_wf: "wf_graph demo_graph"
  by (simp add: wf_graph_def demo_graph_def)

lemma demo_layout_length: "length (layout demo_world) = vcount demo_graph"
  by (simp add: demo_world_def demo_graph_def)

lemma demo_graph_pos: "0 < vcount demo_graph"
  by (simp add: demo_graph_def)

lemma demo_community:
  "community_multilevel demo_lib demo_graph demo_rnd =
     (map (\<lambda>i. i mod 2) [0..<vcount demo_graph], demo_rnd)"
  by (simp add: demo_lib_def)

lemma demo_community_length:
  "length (map (\<lambda>i. i mod 2) [0..<vcount demo_graph]) = vcount demo_graph"
  by simp

lemma create_network_figure_data:
  assumes "wf_graph g" and "length lay = vcount g" and "0 < vcount g"
    and "length (fst (community_multilevel lib g r)) = vcount g"
  obtains fig r' where
    "create_network_figure lib g lay r = (Inr fig, r')"
    "fig_data fig ! 0 =
       edge_trace\<lparr>trace_x := segments fst lay (get_edgelist g),
                  trace_y := segments snd lay (get_edgelist g)\<rparr>"
    "fig_data fig ! 1 =
       node_trace g lay
         (map (\<lambda>i. nth_color (snd (community_multilevel lib g r))
                     (fst (community_multilevel lib g r) ! i)) [0..<vcount g])
         (degree g)"
    "length (fig_data fig) = 2"
    "fig_layout fig = figure_layout"
    "r' = (\<lambda>i. snd (community_multilevel lib g r)
                 (i + 3 * n_clusters (fst (community_multilevel lib g r))))"
  using create_network_figure_ok [OF assms] by simp

text \<open>
  Claim C4. Within one figure build the colouring is total and uniform. For a graph
  with at least one vertex, a layout with one row per vertex and a membership vector
  with one entry per vertex, the build returns a figure whose marker colour list has
  exactly one entry per vertex; two vertices with the same membership (the same
  community) have the same entry; every entry is \<open>#\<close> followed by six lower-case
  hexadecimal digits. The colour of a vertex of community \<open>c\<close> is the one formatted from
  draws \<open>3c\<close>, \<open>3c+1\<close> and \<open>3c+2\<close> of the random state that community detection left,
  each reduced to \<open>0..255\<close> as \<^verbatim>\<open>randint(0, 255)\<close> returns it; and the build takes
  exactly three draws per community: one colour is drawn per community and call.
\<close>

theorem create_network_figure_community_colors:
  assumes "wf_graph g" and "length lay = vcount g" and "0 < vcount g"
    and "community_multilevel lib g r = (membership, r1)"
    and "length membership = vcount g"
  shows "\<exists>fig colors.
     create_network_figure lib g lay r =
       (Inr fig, (\<lambda>i. r1 (i + 3 * n_clusters membership))) \<and>
     map_option marker_color (trace_marker (fig_data fig ! 1)) = Some colors \<and>
     length colors = vcount g \<and>
     (\<forall>i<vcount g. \<forall>j<vcount g.
        membership ! i = membership ! j \<longrightarrow> colors ! i = colors ! j) \<and>
     (\<forall>i<vcount g.
        length (colors ! i) = 7 \<and> hd (colors ! i) = CHR ''#'' \<and>
        set (tl (colors ! i)) \<subseteq> set ''0123456789abcdef'') \<and>
     (\<forall>i<vcount g.
        colors ! i =
          format_color (int (r1 (3 * (membership ! i)) mod 256))
            (int (r1 (3 * (membership ! i) + 1) mod 256))
            (int (r1 (3 * (membership ! i) + 2) mod 256)) \<and>
        fst (randint 0 255 (\<lambda>n. r1 (n + 3 * (membership ! i)))) =
          int (r1 (3 * (membership ! i)) mod 256))"
proof -
  let ?colors = "map (\<lambda>i. nth_color r1 (membership ! i)) [0..<vcount g]"
  have mem: "length (fst (community_multilevel lib g r)) = vcount g"
    using assms(4,5) by simp
  note fig = create_network_figure_ok [OF assms(1-3) mem, unfolded assms(4) fst_conv snd_conv]
  have shape: "length (?colors ! i) = 7 \<and> hd (?colors ! i) = CHR ''#'' \<and>
      set (tl (?colors ! i)) \<subseteq> set ''0123456789abcdef''" if "i < vcount g" for i
    using that nth_color_shape [of r1 "membership ! i"] by simp
  have same: "?colors ! i = ?colors ! j"
    if "i < vcount g" "j < vcount g" "membership ! i = membership ! j" for i j
    using that by simp
  have drawn: "?colors ! i =
          format_color (int (r1 (3 * (membership ! i)) mod 256))
            (int (r1 (3 * (membership ! i) + 1) mod 256))
            (int (r1 (3 * (membership ! i) + 2) mod 256)) \<and>
        fst (randint 0 255 (\<lambda>n. r1 (n + 3 * (membership ! i)))) =
          int (r1 (3 * (membership ! i)) mod 256)" if "i < vcount g" for i
    using that by (simp add: nth_color_def randint_def)
  show ?thesis
    unfolding fig
    apply (intro exI conjI)
         apply (rule refl)
        apply (simp add: node_trace_def)
       apply simp
    using same apply blast
    using shape apply blast
    using drawn apply blast
    done
qed

theorem create_network_figure_community_colors_witness:
  "\<exists>fig colors.
     fst (create_network_figure demo_lib demo_graph (layout demo_world) demo_rnd) = Inr fig \<and>
     map_option marker_color (trace_marker (fig_data fig ! 1)) = Some colors \<and>
     length colors = 4 \<and> colors ! 0 = colors ! 2 \<and> colors ! 1 = colors ! 3 \<and>
     length (colors ! 0) = 7 \<and> colors ! 0 = ''#0b3055'' \<and> colors ! 1 = ''#7a9fc4''"
proof -
  from create_network_figure_community_colors
    [OF demo_graph_wf demo_layout_length demo_graph_pos demo_community demo_community_length]
  obtain fig colors where
    f: "create_network_figure demo_lib demo_graph (layout demo_world) demo_rnd =
       (Inr fig, (\<lambda>i. demo_rnd (i + 3 * n_clusters (map (\<lambda>i. i mod 2) [0..<vcount demo_graph]))))"
    and c: "map_option marker_color (trace_marker (fig_data fig ! 1)) = Some colors"
    and l: "length colors = vcount demo_graph"
    and s: "\<forall>i<vcount demo_graph. \<forall>j<vcount demo_graph.
        map (\<lambda>i. i mod 2) [0..<vcount demo_graph] ! i =
        map (\<lambda>i. i mod 2) [0..<vcount demo_graph] ! j \<longrightarrow> colors ! i = colors ! j"
    and h: "\<forall>i<vcount demo_graph.
        length (colors ! i) = 7 \<and> hd (colors ! i) = CHR ''#'' \<and>
        set (tl (colors ! i)) \<subseteq> set ''0123456789abcdef''"
    and d: "\<forall>i<vcount demo_graph.
        colors ! i =
          format_color (int (demo_rnd (3 * (map (\<lambda>i. i mod 2) [0..<vcount demo_graph] ! i)) mod 256))
            (int (demo_rnd (3 * (map (\<lambda>i. i mod 2) [0..<vcount demo_graph] ! i) + 1) mod 256))
            (int (demo_rnd (3 * (map (\<lambda>i. i mod 2) [0..<vcount demo_graph] ! i) + 2) mod 256)) \<and>
        fst (randint 0 255
              (\<lambda>n. demo_rnd (n + 3 * (map (\<lambda>i. i mod 2) [0..<vcount demo_graph] ! i)))) =
          int (demo_rnd (3 * (map (\<lambda>i. i mod 2) [0..<vcount demo_graph] ! i)) mod 256)"
    by blast
  have n: "vcount demo_graph = 4"
    by (simp add: demo_graph_def)
  have "colors ! 0 = colors ! 2"
    using s [rule_format, of 0 2] by (simp add: n)
  moreover have "colors ! 1 = colors ! 3"
    using s [rule_format, of 1 3] by (simp add: n)
  moreover have "length (colors ! 0) = 7"
    using h [rule_format, of 0] by (simp add: n)
  moreover have "colors ! 0 = ''#0b3055''"
    using d [rule_format, of 0]
    by (simp add: n demo_rnd_def format_color_def format_02x_def hex_small hex_byte hexdigit_def)
  moreover have "colors ! 1 = ''#7a9fc4''"
    using d [rule_format, of 1]
    by (simp add: n demo_rnd_def format_color_def format_02x_def hex_small hex_byte hexdigit_def)
  ultimately show ?thesis
    using f c l n by auto
qed

text \<open>
  Claim C5. For every vertex \<open>v\<close> of the graph being rendered (the full graph or a
  subgraph: any graph passed to the figure builder), the value attached to \<open>v\<close>'s marker
  as \<^verbatim>\<open>customdata\<close>, which the hover template shows as the degree, is the number of
  edges of that graph with an end at \<open>v\<close>, a self-loop counted twice: the edges incident
  to \<open>v\<close> plus the self-loops at \<open>v\<close>.
\<close>

theorem create_network_figure_degrees:
  assumes "wf_graph g" and "length lay = vcount g" and "0 < vcount g"
    and "length (fst (community_multilevel lib g r)) = vcount g"
  shows "\<exists>fig r' d.
     create_network_figure lib g lay r = (Inr fig, r') \<and>
     trace_customdata (fig_data fig ! 1) = Some d \<and>
     trace_hovertemplate (fig_data fig ! 1) = Some ''%{text}<br>Degree: %{customdata}'' \<and>
     length d = vcount g \<and>
     (\<forall>v<vcount g.
        d ! v =
          card {i. i < length (get_edgelist g) \<and>
                   (fst (get_edgelist g ! i) = v \<or> snd (get_edgelist g ! i) = v)} +
          card {i. i < length (get_edgelist g) \<and> get_edgelist g ! i = (v, v)})"
proof -
  from assms obtain fig r' where
    f: "create_network_figure lib g lay r = (Inr fig, r')"
    and nt: "fig_data fig ! 1 =
       node_trace g lay
         (map (\<lambda>i. nth_color (snd (community_multilevel lib g r))
                     (fst (community_multilevel lib g r) ! i)) [0..<vcount g])
         (degree g)"
    by (rule create_network_figure_data)
  have "trace_customdata (fig_data fig ! 1) = Some (degree g)"
    and "trace_hovertemplate (fig_data fig ! 1) = Some ''%{text}<br>Degree: %{customdata}''"
    unfolding nt by (simp_all add: node_trace_def)
  with f show ?thesis
    using length_degree [of g] degree_nth [of _ g] by blast
qed

theorem create_network_figure_degrees_witness:
  "\<exists>fig r' d.
     create_network_figure demo_lib demo_graph (layout demo_world) demo_rnd = (Inr fig, r') \<and>
     trace_customdata (fig_data fig ! 1) = Some d \<and> d = [1, 2, 1, 0]"
proof -
  have m: "length (fst (community_multilevel demo_lib demo_graph demo_rnd)) = vcount demo_graph"
    by (simp add: demo_community)
  have n: "vcount demo_graph = 4"
    by (simp add: demo_graph_def)
  from create_network_figure_degrees [OF demo_graph_wf demo_layout_length demo_graph_pos m]
  obtain fig r' d where
    f: "create_network_figure demo_lib demo_graph (layout demo_world) demo_rnd = (Inr fig, r')"
    and c: "trace_customdata (fig_data fig ! 1) = Some d"
    by blast
  have "d = degree demo_graph"
    using f c
    by (auto simp: create_network_figure_ok [OF demo_graph_wf demo_layout_length demo_graph_pos m]
        node_trace_def)
  also have "\<dots> = [1, 2, 1, 0]"
    by (simp add: degree_def demo_graph_def upt_rec)
  finally show ?thesis
    using f c by blast
qed

text \<open>
  Claim C6. For edge number \<open>j\<close> of the rendered graph, from \<open>u\<close> to \<open>v\<close>, entries
  \<open>3j\<close> and \<open>3j+1\<close> of the edge trace's coordinate lists are the layout positions of
  \<open>u\<close> and \<open>v\<close> and entry \<open>3j+2\<close> is the separator \<^verbatim>\<open>None\<close>. So both lists have
  three entries per edge, and the line trace is broken after every edge: no segment
  joins end points of two different edges.
\<close>

theorem create_network_figure_edge_trace:
  assumes "wf_graph g" and "length lay = vcount g" and "0 < vcount g"
    and "length (fst (community_multilevel lib g r)) = vcount g"
  shows "\<exists>fig r'.
     create_network_figure lib g lay r = (Inr fig, r') \<and>
     trace_mode (fig_data fig ! 0) = ''lines'' \<and>
     length (trace_x (fig_data fig ! 0)) = 3 * length (get_edgelist g) \<and>
     length (trace_y (fig_data fig ! 0)) = 3 * length (get_edgelist g) \<and>
     (\<forall>j<length (get_edgelist g).
        trace_x (fig_data fig ! 0) ! (3 * j) = Some (fst (lay ! fst (get_edgelist g ! j))) \<and>
        trace_y (fig_data fig ! 0) ! (3 * j) = Some (snd (lay ! fst (get_edgelist g ! j))) \<and>
        trace_x (fig_data fig ! 0) ! (3 * j + 1) = Some (fst (lay ! snd (get_edgelist g ! j))) \<and>
        trace_y (fig_data fig ! 0) ! (3 * j + 1) = Some (snd (lay ! snd (get_edgelist g ! j))) \<and>
        trace_x (fig_data fig ! 0) ! (3 * j + 2) = None \<and>
        trace_y (fig_data fig ! 0) ! (3 * j + 2) = None)"
proof -
  from assms obtain fig r' where
    f: "create_network_figure lib g lay r = (Inr fig, r')"
    and et: "fig_data fig ! 0 =
       edge_trace\<lparr>trace_x := segments fst lay (get_edgelist g),
                  trace_y := segments snd lay (get_edgelist g)\<rparr>"
    by (rule create_network_figure_data)
  have tr: "trace_mode (fig_data fig ! 0) = ''lines''"
    "trace_x (fig_data fig ! 0) = segments fst lay (get_edgelist g)"
    "trace_y (fig_data fig ! 0) = segments snd lay (get_edgelist g)"
    unfolding et by (simp_all add: edge_trace_def)
  show ?thesis
    unfolding f
    by (intro exI [of _ fig] exI [of _ r'] conjI allI impI)
      (simp_all add: tr length_segments segments_nth)
qed

theorem create_network_figure_edge_trace_witness:
  "\<exists>fig r'.
     create_network_figure demo_lib demo_graph (layout demo_world) demo_rnd = (Inr fig, r') \<and>
     trace_x (fig_data fig ! 0) = [Some 0, Some 1, None, Some 1, Some 2, None] \<and>
     trace_y (fig_data fig ! 0) = [Some 0, Some 1, None, Some 1, Some 0, None]"
proof -
  have m: "length (fst (community_multilevel demo_lib demo_graph demo_rnd)) = vcount demo_graph"
    by (simp add: demo_community)
  from create_network_figure_edge_trace [OF demo_graph_wf demo_layout_length demo_graph_pos m]
  obtain fig r' where
    f: "create_network_figure demo_lib demo_graph (layout demo_world) demo_rnd = (Inr fig, r')"
    by blast
  have "trace_x (fig_data fig ! 0) = segments fst (layout demo_world) (get_edgelist demo_graph)"
    "trace_y (fig_data fig ! 0) = segments snd (layout demo_world) (get_edgelist demo_graph)"
    using f
    by (auto simp: create_network_figure_ok
        [OF demo_graph_wf demo_layout_length demo_graph_pos m] edge_trace_def)
  then show ?thesis
    using f by (simp add: segments_def demo_world_def demo_graph_def)
qed

section \<open>The subgraph of a click\<close>

lemma adjacent_iff:
  "adjacent g v u \<longleftrightarrow> (v, u) \<in> set (get_edgelist g) \<or> (u, v) \<in> set (get_edgelist g)"
  by (auto simp: adjacent_def list_ex_iff)

lemma neighborhood_valid:
  "0 \<le> k \<Longrightarrow> k < int (vcount g) \<Longrightarrow>
   neighborhood g k =
     Inr (nat k # filter (\<lambda>u. u \<noteq> nat k \<and> adjacent g (nat k) u) [0..<vcount g])"
  by (simp add: neighborhood_def Let_def)

lemma wf_graph_edge:
  "wf_graph g \<Longrightarrow> (u, v) \<in> set (get_edgelist g) \<Longrightarrow> u < vcount g \<and> v < vcount g"
  by (auto simp: wf_graph_def list_all_iff)

lemma neighborhood_set:
  assumes "wf_graph g" and "v < vcount g"
  shows "set (v # filter (\<lambda>u. u \<noteq> v \<and> adjacent g v u) [0..<vcount g]) =
         {v} \<union> {u. (v, u) \<in> set (get_edgelist g) \<or> (u, v) \<in> set (get_edgelist g)}"
  using assms wf_graph_edge [OF assms(1)] by (auto simp: adjacent_iff)

lemma neighborhood_in_range:
  assumes "v < vcount g"
  shows "list_all (\<lambda>u. u < vcount g)
           (v # filter (\<lambda>u. u \<noteq> v \<and> adjacent g v u) [0..<vcount g])"
  using assms by (simp add: list_all_iff)

lemma set_kept_vertices:
  "list_all (\<lambda>v. v < vcount g) vs \<Longrightarrow> set (kept_vertices g vs) = set vs"
  by (auto simp: kept_vertices_def list_all_iff)

lemma distinct_kept_vertices: "distinct (kept_vertices g vs)"
  by (simp add: kept_vertices_def)

lemma sorted_kept_vertices: "sorted (kept_vertices g vs)"
  by (simp add: kept_vertices_def sorted_wrt_filter)

lemma nth_index_of: "u \<in> set keep \<Longrightarrow> keep ! index_of keep u = u"
  unfolding index_of_def by (induction keep) auto

lemma index_of_less: "u \<in> set keep \<Longrightarrow> index_of keep u < length keep"
  unfolding index_of_def by (induction keep) auto

lemma subgraph_ok:
  "list_all (\<lambda>v. v < vcount g) vs \<Longrightarrow>
   subgraph g vs =
     Inr \<lparr>vcount = length (kept_vertices g vs),
          get_edgelist = induced_edges g vs,
          vs_name = map (\<lambda>v. vs_name g ! v) (kept_vertices g vs)\<rparr>"
  by (simp add: subgraph_def Let_def)

lemma subgraph_edges_back:
  "map (\<lambda>(a, b). (keep ! a, keep ! b))
     (map (\<lambda>(u, v). (index_of keep u, index_of keep v))
        (filter (\<lambda>(u, v). u \<in> set keep \<and> v \<in> set keep) es)) =
   filter (\<lambda>(u, v). u \<in> set keep \<and> v \<in> set keep) es"
  by (induction es) (auto simp: nth_index_of)

lemma mset_induced_edges:
  "mset (induced_edges g vs) =
   mset (map (\<lambda>(u, v). (index_of (kept_vertices g vs) u, index_of (kept_vertices g vs) v))
     (filter (\<lambda>(u, v). u \<in> set (kept_vertices g vs) \<and> v \<in> set (kept_vertices g vs))
        (get_edgelist g)))"
  by (simp add: induced_edges_def Let_def)

lemma induced_edges_back:
  "mset (map (\<lambda>(a, b). (kept_vertices g vs ! a, kept_vertices g vs ! b)) (induced_edges g vs)) =
   mset (filter (\<lambda>(u, v). u \<in> set (kept_vertices g vs) \<and> v \<in> set (kept_vertices g vs))
     (get_edgelist g))"
proof -
  let ?keep = "kept_vertices g vs"
  let ?f = "\<lambda>(a, b). (?keep ! a, ?keep ! b)"
  let ?reindexed = "map (\<lambda>(u, v). (index_of ?keep u, index_of ?keep v))
      (filter (\<lambda>(u, v). u \<in> set ?keep \<and> v \<in> set ?keep) (get_edgelist g))"
  have "mset (map ?f (induced_edges g vs)) = image_mset ?f (mset (induced_edges g vs))"
    by (rule mset_map)
  also have "\<dots> = image_mset ?f (mset ?reindexed)"
    by (simp only: mset_induced_edges)
  also have "\<dots> = mset (map ?f ?reindexed)"
    by (rule mset_map [symmetric])
  also have "map ?f ?reindexed =
      filter (\<lambda>(u, v). u \<in> set ?keep \<and> v \<in> set ?keep) (get_edgelist g)"
    by (rule subgraph_edges_back)
  finally show ?thesis .
qed

lemma induced_edges_range:
  "list_all (\<lambda>e. fst e < length (kept_vertices g vs) \<and> snd e < length (kept_vertices g vs))
     (induced_edges g vs)"
proof -
  have "set (induced_edges g vs) = set_mset (mset (induced_edges g vs))"
    by simp
  also have "\<dots> =
      (\<lambda>(u, v). (index_of (kept_vertices g vs) u, index_of (kept_vertices g vs) v)) `
        {e \<in> set (get_edgelist g).
           fst e \<in> set (kept_vertices g vs) \<and> snd e \<in> set (kept_vertices g vs)}"
    unfolding mset_induced_edges by (auto simp: case_prod_beta)
  finally show ?thesis
    by (auto simp: list_all_iff index_of_less)
qed

lemma subgraph_wf:
  assumes "list_all (\<lambda>v. v < vcount g) vs" and "subgraph g vs = Inr sg"
  shows "wf_graph sg"
  using assms induced_edges_range [of g vs]
  by (auto simp: subgraph_ok wf_graph_def)

text \<open>
  Claim C1. For a click on a valid node index \<open>k\<close> of the session graph, the handler
  takes igraph's neighbourhood of \<open>k\<close>, builds the subgraph on it and passes exactly that
  subgraph to the figure builder. The vertices kept (the renumbering from the
  subgraph's vertex ids to the session graph's, each kept once) are \<open>k\<close> and every
  vertex sharing an edge with \<open>k\<close>: the closed 1-hop neighbourhood. The subgraph's vertices
  carry the names of these vertices. Its edges, read back through the renumbering, are
  exactly the edges of the session graph with both ends in the neighbourhood: the same
  set, and each edge as often as it occurs there, in whatever order igraph lists them.
\<close>

theorem update_subgraph_plot_induced_subgraph:
  assumes "wf_graph (original_graph w)"
    and "0 \<le> k" and "k < int (vcount (original_graph w))"
  shows "\<exists>neighbors sg.
     neighborhood (original_graph w) k = Inr neighbors \<and>
     subgraph (original_graph w) neighbors = Inr sg \<and>
     update_subgraph_plot lib w (Some (ClickData (Point k # ps))) =
       (let (subgraph_layout, r1) = layout_fr lib sg (random_state w);
            (res, r2) = create_network_figure lib sg subgraph_layout r1
        in (res, w\<lparr>random_state := r2\<rparr>)) \<and>
     set (kept_vertices (original_graph w) neighbors) =
       {nat k} \<union> {u. (nat k, u) \<in> set (get_edgelist (original_graph w)) \<or>
                      (u, nat k) \<in> set (get_edgelist (original_graph w))} \<and>
     distinct (kept_vertices (original_graph w) neighbors) \<and>
     vcount sg = length (kept_vertices (original_graph w) neighbors) \<and>
     vs_name sg =
       map (\<lambda>v. vs_name (original_graph w) ! v) (kept_vertices (original_graph w) neighbors) \<and>
     list_all (\<lambda>e. fst e < vcount sg \<and> snd e < vcount sg) (get_edgelist sg) \<and>
     mset (map (\<lambda>(a, b). (kept_vertices (original_graph w) neighbors ! a,
                          kept_vertices (original_graph w) neighbors ! b)) (get_edgelist sg)) =
       mset (filter (\<lambda>(u, v). u \<in> set (kept_vertices (original_graph w) neighbors) \<and>
                              v \<in> set (kept_vertices (original_graph w) neighbors))
         (get_edgelist (original_graph w))) \<and>
     set (map (\<lambda>(a, b). (kept_vertices (original_graph w) neighbors ! a,
                         kept_vertices (original_graph w) neighbors ! b)) (get_edgelist sg)) =
       {e \<in> set (get_edgelist (original_graph w)).
          fst e \<in> set (kept_vertices (original_graph w) neighbors) \<and>
          snd e \<in> set (kept_vertices (original_graph w) neighbors)}"
proof -
  let ?g = "original_graph w"
  let ?nbs = "nat k # filter (\<lambda>u. u \<noteq> nat k \<and> adjacent ?g (nat k) u) [0..<vcount ?g]"
  let ?keep = "kept_vertices ?g ?nbs"
  let ?sg = "\<lparr>vcount = length ?keep, get_edgelist = induced_edges ?g ?nbs,
          vs_name = map (\<lambda>v. vs_name ?g ! v) ?keep\<rparr>"
  let ?readback = "map (\<lambda>(a, b). (?keep ! a, ?keep ! b)) (get_edgelist ?sg)"
  have v: "nat k < vcount ?g"
    using assms(2,3) by simp
  have nb: "neighborhood ?g k = Inr ?nbs"
    using assms(2,3) by (rule neighborhood_valid)
  have range: "list_all (\<lambda>u. u < vcount ?g) ?nbs"
    using v by (rule neighborhood_in_range)
  have sg: "subgraph ?g ?nbs = Inr ?sg"
    using range by (rule subgraph_ok)
  have keep: "set ?keep = {nat k} \<union> {u. (nat k, u) \<in> set (get_edgelist ?g) \<or>
      (u, nat k) \<in> set (get_edgelist ?g)}"
    using set_kept_vertices [OF range] neighborhood_set [OF assms(1) v] by simp
  have wf: "list_all (\<lambda>e. fst e < vcount ?sg \<and> snd e < vcount ?sg) (get_edgelist ?sg)"
    using induced_edges_range [of ?g ?nbs] by simp
  have edges_mset: "mset ?readback =
      mset (filter (\<lambda>(u, v). u \<in> set ?keep \<and> v \<in> set ?keep) (get_edgelist ?g))"
    using induced_edges_back [of ?g ?nbs] by simp
  have "set ?readback = set_mset (mset ?readback)"
    by simp
  also have "\<dots> = {e \<in> set (get_edgelist ?g). fst e \<in> set ?keep \<and> snd e \<in> set ?keep}"
    unfolding edges_mset by (auto simp: case_prod_beta)
  finally have edges_set:
    "set ?readback = {e \<in> set (get_edgelist ?g). fst e \<in> set ?keep \<and> snd e \<in> set ?keep}" .
  have call: "update_subgraph_plot lib w (Some (ClickData (Point k # ps))) =
       (let (subgraph_layout, r1) = layout_fr lib ?sg (random_state w);
            (res, r2) = create_network_figure lib ?sg subgraph_layout r1
        in (res, w\<lparr>random_state := r2\<rparr>))"
    by (simp add: update_subgraph_plot_def nb sg)
  show ?thesis
    apply (rule exI [of _ ?nbs])
    apply (rule exI [of _ ?sg])
    apply (intro conjI)
             apply (rule nb)
            apply (rule sg)
           apply (rule call)
          apply (rule keep)
         apply (rule distinct_kept_vertices)
        apply simp
       apply simp
      apply (rule wf)
     apply (rule edges_mset)
    apply (rule edges_set)
    done
qed

lemma demo_world_graph: "original_graph demo_world = demo_graph"
  by (simp add: demo_world_def)

lemma demo_neighborhood: "neighborhood demo_graph 1 = Inr [1, 0, 2]"
  by (simp add: neighborhood_def demo_graph_def adjacent_def upt_rec)

lemma demo_kept: "kept_vertices demo_graph [1, 0, 2] = [0, 1, 2]"
  by (simp add: kept_vertices_def demo_graph_def upt_rec)

lemma demo_induced_edges: "induced_edges demo_graph [1, 0, 2] = [(0, 1), (1, 2)]"
  unfolding induced_edges_def demo_kept by (simp add: demo_graph_def index_of_def)

lemma demo_subgraph:
  "subgraph demo_graph [1, 0, 2] =
     Inr \<lparr>vcount = 3, get_edgelist = [(0, 1), (1, 2)],
          vs_name = [''Node-0'', ''Node-1'', ''Node-2'']\<rparr>"
proof -
  have "list_all (\<lambda>v. v < vcount demo_graph) [1, 0, 2]"
    by (simp add: demo_graph_def)
  from subgraph_ok [OF this] show ?thesis
    unfolding demo_kept demo_induced_edges by (simp add: demo_graph_def)
qed

theorem update_subgraph_plot_induced_subgraph_witness:
  "\<exists>neighbors sg.
     neighborhood (original_graph demo_world) 1 = Inr neighbors \<and>
     subgraph (original_graph demo_world) neighbors = Inr sg \<and>
     set (kept_vertices (original_graph demo_world) neighbors) = {0, 1, 2} \<and>
     vcount sg = 3 \<and>
     vs_name sg = [''Node-0'', ''Node-1'', ''Node-2''] \<and>
     get_edgelist sg = [(0, 1), (1, 2)]"
proof -
  have wf: "wf_graph (original_graph demo_world)"
    by (simp add: demo_world_graph demo_graph_wf)
  have k: "(1::int) < int (vcount (original_graph demo_world))"
    by (simp add: demo_world_graph demo_graph_def)
  from update_subgraph_plot_induced_subgraph [OF wf _ k, of demo_lib "[]"]
  obtain neighbors sg where
    nb: "neighborhood (original_graph demo_world) 1 = Inr neighbors"
    and sg: "subgraph (original_graph demo_world) neighbors = Inr sg"
    by auto
  from nb have n: "neighbors = [1, 0, 2]"
    by (simp add: demo_world_graph demo_neighborhood)
  from sg have "sg = \<lparr>vcount = 3, get_edgelist = [(0, 1), (1, 2)],
          vs_name = [''Node-0'', ''Node-1'', ''Node-2'']\<rparr>"
    unfolding n demo_world_graph demo_subgraph by simp
  moreover have "set (kept_vertices (original_graph demo_world) neighbors) = {0, 1, 2}"
    unfolding n demo_world_graph demo_kept by auto
  ultimately show ?thesis
    using nb sg by simp
qed

text \<open>
  The order of the subgraph's edges on a graph of ten vertices with edges 1-2, 0-1, 0-2
  and 5-6, for the neighbourhood of vertex 0: three of ten vertices are kept, so the
  subgraph is built from scratch and its edges come by larger end, then smaller end.
\<close>

lemma induced_edges_from_scratch:
  "induced_edges
     \<lparr>vcount = 10, get_edgelist = [(1, 2), (0, 1), (0, 2), (5, 6)], vs_name = names\<rparr>
     [0, 1, 2] =
   [(0, 1), (0, 2), (1, 2)]"
proof -
  have keep: "kept_vertices
      \<lparr>vcount = 10, get_edgelist = [(1, 2), (0, 1), (0, 2), (5, 6)], vs_name = names\<rparr>
      [0, 1, 2] = [0, 1, 2]"
    by (simp add: kept_vertices_def upt_rec)
  show ?thesis
    unfolding induced_edges_def keep by (simp add: index_of_def edge_key_def)
qed

section \<open>Marker indices are vertex indices\<close>

lemma click_resolution:
  assumes "i < vcount (original_graph w)"
  obtains neighbors sg where
    "neighborhood (original_graph w) (int i) = Inr neighbors"
    "hd neighbors = i"
    "subgraph (original_graph w) neighbors = Inr sg"
    "vs_name (original_graph w) ! i \<in> set (vs_name sg)"
    "update_subgraph_plot lib w (Some (ClickData (Point (int i) # ps))) =
       (let (subgraph_layout, r1) = layout_fr lib sg (random_state w);
            (res, r2) = create_network_figure lib sg subgraph_layout r1
        in (res, w\<lparr>random_state := r2\<rparr>))"
proof -
  let ?g = "original_graph w"
  let ?nbs = "i # filter (\<lambda>u. u \<noteq> i \<and> adjacent ?g i u) [0..<vcount ?g]"
  let ?keep = "kept_vertices ?g ?nbs"
  let ?sg = "\<lparr>vcount = length ?keep, get_edgelist = induced_edges ?g ?nbs,
          vs_name = map (\<lambda>v. vs_name ?g ! v) ?keep\<rparr>"
  have nb: "neighborhood ?g (int i) = Inr ?nbs"
    using neighborhood_valid [of "int i" ?g] assms by simp
  have range: "list_all (\<lambda>u. u < vcount ?g) ?nbs"
    using assms by (rule neighborhood_in_range)
  have sg: "subgraph ?g ?nbs = Inr ?sg"
    using range by (rule subgraph_ok)
  have "i \<in> set ?keep"
    using set_kept_vertices [OF range] by simp
  then have name: "vs_name ?g ! i \<in> set (vs_name ?sg)"
    by simp
  have call: "update_subgraph_plot lib w (Some (ClickData (Point (int i) # ps))) =
       (let (subgraph_layout, r1) = layout_fr lib ?sg (random_state w);
            (res, r2) = create_network_figure lib ?sg subgraph_layout r1
        in (res, w\<lparr>random_state := r2\<rparr>))"
    by (simp add: update_subgraph_plot_def nb sg)
  show thesis
    by (rule that [OF nb _ sg name call]) simp
qed

text \<open>
  Claim C10. In every figure that the builder returns, the data list is the edge trace
  followed by the node trace, and the node trace's position, label, colour and degree
  lists have one entry per vertex, entry \<open>i\<close> being the layout position, the name, the
  colour found under key \<open>i\<close> in the colour dictionary, and the degree of vertex \<open>i\<close>. So
  the index of a node marker is the vertex index in the rendered graph. When the
  rendered graph is the session graph, the click handler given marker index \<open>i\<close> takes
  the neighbourhood of vertex \<open>i\<close> in the session graph, starting with \<open>i\<close> itself, and
  the subgraph it passes on contains the vertex with the label of marker \<open>i\<close>.
\<close>

theorem figure_order_click_resolution:
  assumes "wf_graph g" and "length lay = vcount g" and "0 < vcount g"
    and "community_multilevel lib g r = (membership, r1)"
    and "length membership = vcount g"
    and "original_graph w = g"
  shows "\<exists>fig r' m names d.
     create_network_figure lib g lay r = (Inr fig, r') \<and>
     length (fig_data fig) = 2 \<and>
     trace_mode (fig_data fig ! 0) = ''lines'' \<and>
     trace_mode (fig_data fig ! 1) = ''markers+text'' \<and>
     trace_marker (fig_data fig ! 1) = Some m \<and>
     trace_text (fig_data fig ! 1) = Some names \<and>
     trace_customdata (fig_data fig ! 1) = Some d \<and>
     length (trace_x (fig_data fig ! 1)) = vcount g \<and>
     length (trace_y (fig_data fig ! 1)) = vcount g \<and>
     length names = vcount g \<and>
     length (marker_color m) = vcount g \<and>
     length d = vcount g \<and>
     (\<forall>i<vcount g.
        trace_x (fig_data fig ! 1) ! i = Some (fst (lay ! i)) \<and>
        trace_y (fig_data fig ! 1) ! i = Some (snd (lay ! i)) \<and>
        names ! i = vs_name g ! i \<and>
        Some (marker_color m ! i) =
          fst (color_communities (clusters membership) Map.empty r1) i \<and>
        d ! i = degree g ! i) \<and>
     (\<forall>i<vcount g. \<exists>neighbors sg.
        neighborhood (original_graph w) (int i) = Inr neighbors \<and>
        hd neighbors = i \<and>
        subgraph (original_graph w) neighbors = Inr sg \<and>
        names ! i \<in> set (vs_name sg) \<and>
        update_subgraph_plot lib w (Some (ClickData (Point (int i) # ps))) =
          (let (subgraph_layout, r1) = layout_fr lib sg (random_state w);
               (res, r2) = create_network_figure lib sg subgraph_layout r1
           in (res, w\<lparr>random_state := r2\<rparr>)))"
proof -
  let ?colors = "map (\<lambda>i. nth_color r1 (membership ! i)) [0..<vcount g]"
  have mem: "length (fst (community_multilevel lib g r)) = vcount g"
    using assms(4,5) by simp
  let ?fig = "\<lparr>fig_data =
             [edge_trace\<lparr>trace_x := segments fst lay (get_edgelist g),
                         trace_y := segments snd lay (get_edgelist g)\<rparr>,
              node_trace g lay ?colors (degree g)],
           fig_layout = figure_layout\<rparr>"
  let ?r' = "\<lambda>i. r1 (i + 3 * n_clusters membership)"
  have f: "create_network_figure lib g lay r = (Inr ?fig, ?r')"
    using create_network_figure_ok [OF assms(1-3) mem] unfolding assms(4) by simp
  have names: "length (vs_name g) = vcount g"
    using assms(1) by (simp add: wf_graph_def)
  have click: "\<exists>neighbors sg.
        neighborhood (original_graph w) (int i) = Inr neighbors \<and>
        hd neighbors = i \<and>
        subgraph (original_graph w) neighbors = Inr sg \<and>
        vs_name g ! i \<in> set (vs_name sg) \<and>
        update_subgraph_plot lib w (Some (ClickData (Point (int i) # ps))) =
          (let (subgraph_layout, r1) = layout_fr lib sg (random_state w);
               (res, r2) = create_network_figure lib sg subgraph_layout r1
           in (res, w\<lparr>random_state := r2\<rparr>))" if "i < vcount g" for i
  proof -
    from that assms(6) have "i < vcount (original_graph w)"
      by simp
    then show ?thesis
      by (rule click_resolution [where lib = lib and ps = ps]) (use assms(6) in blast)
  qed
  show ?thesis
    apply (rule exI [of _ ?fig])
    apply (rule exI [of _ ?r'])
    apply (rule exI [of _ "\<lparr>marker_size = 10, marker_color = ?colors, marker_line_width = 2\<rparr>"])
    apply (rule exI [of _ "vs_name g"])
    apply (rule exI [of _ "degree g"])
    apply (intro conjI)
                 prefer 14
                 apply (intro allI impI, erule click)
                apply (rule f)
               apply (simp_all add: edge_trace_def node_trace_def names assms(2,5) length_degree
        clusters_color degree_def)
    done
qed

theorem figure_order_click_resolution_witness:
  "\<exists>fig r' names.
     create_network_figure demo_lib demo_graph (layout demo_world) demo_rnd = (Inr fig, r') \<and>
     length (fig_data fig) = 2 \<and>
     trace_mode (fig_data fig ! 0) = ''lines'' \<and>
     trace_mode (fig_data fig ! 1) = ''markers+text'' \<and>
     trace_text (fig_data fig ! 1) = Some names \<and>
     names ! 1 = ''Node-1'' \<and>
     trace_x (fig_data fig ! 1) ! 1 = Some 1 \<and>
     (\<exists>neighbors sg.
        neighborhood (original_graph demo_world) 1 = Inr neighbors \<and>
        hd neighbors = 1 \<and>
        subgraph (original_graph demo_world) neighbors = Inr sg \<and>
        ''Node-1'' \<in> set (vs_name sg))"
proof -
  from figure_order_click_resolution
    [OF demo_graph_wf demo_layout_length demo_graph_pos demo_community demo_community_length
      demo_world_graph, where ps = "[]"]
  obtain fig r' names where
    f: "create_network_figure demo_lib demo_graph (layout demo_world) demo_rnd = (Inr fig, r')"
    and shape: "length (fig_data fig) = 2" "trace_mode (fig_data fig ! 0) = ''lines''"
      "trace_mode (fig_data fig ! 1) = ''markers+text''"
      "trace_text (fig_data fig ! 1) = Some names"
    and entry: "\<forall>i<vcount demo_graph.
        trace_x (fig_data fig ! 1) ! i = Some (fst (layout demo_world ! i)) \<and>
        names ! i = vs_name demo_graph ! i"
    and click: "\<forall>i<vcount demo_graph. \<exists>neighbors sg.
        neighborhood (original_graph demo_world) (int i) = Inr neighbors \<and>
        hd neighbors = i \<and>
        subgraph (original_graph demo_world) neighbors = Inr sg \<and>
        names ! i \<in> set (vs_name sg)"
    by blast
  have one: "1 < vcount demo_graph"
    by (simp add: demo_graph_def)
  have "names ! 1 = ''Node-1''" "trace_x (fig_data fig ! 1) ! 1 = Some 1"
    using entry [rule_format, OF one] by (simp_all add: demo_graph_def demo_world_def)
  moreover from click [rule_format, OF one] obtain neighbors sg where
    "neighborhood (original_graph demo_world) 1 = Inr neighbors" "hd neighbors = 1"
    "subgraph (original_graph demo_world) neighbors = Inr sg" "names ! 1 \<in> set (vs_name sg)"
    by auto
  ultimately show ?thesis
    using f shape by auto
qed

section \<open>The graph created at start-up\<close>

lemma length_node_names: "length node_names = 50"
  by (simp add: node_names_def)

lemma node_names_nth: "i < 50 \<Longrightarrow> node_names ! i = ''Node-'' @ str_nat i"
  by (simp add: node_names_def)

lemma distinct_node_names: "distinct node_names"
  by code_simp

lemma node_names_first_last: "node_names ! 0 = ''Node-0'' \<and> node_names ! 49 = ''Node-49''"
  by code_simp

lemma create_graph_graph:
  "fst (fst (create_graph lib r)) =
     (fst (Erdos_Renyi lib 50 100 False r))\<lparr>vs_name := node_names\<rparr>"
  by (simp add: create_graph_def case_prod_beta Let_def)

text \<open>
  Claim C2. The graph created at start-up has exactly 50 vertices and exactly 100
  edges, and vertex \<open>i\<close> carries the name \<open>Node-i\<close> for every \<open>i\<close> from 0 to 49, no name
  twice. The counts rest on igraph's generator returning \<open>n\<close> vertices and \<open>m\<close> edges when
  \<open>m\<close> is at most the number of vertex pairs; the call \<^verbatim>\<open>Erdos_Renyi(n=50, m=100)\<close> is
  within that range, and assigning the names changes neither count.
\<close>

theorem create_graph_counts_and_names:
  assumes "generator_contract lib"
  shows "vcount (original_graph (startup lib r)) = 50 \<and>
         length (get_edgelist (original_graph (startup lib r))) = 100 \<and>
         length (vs_name (original_graph (startup lib r))) = 50 \<and>
         distinct (vs_name (original_graph (startup lib r))) \<and>
         (\<forall>i<50. vs_name (original_graph (startup lib r)) ! i = ''Node-'' @ str_nat i) \<and>
         vs_name (original_graph (startup lib r)) ! 0 = ''Node-0'' \<and>
         vs_name (original_graph (startup lib r)) ! 49 = ''Node-49''"
proof -
  have "(100::nat) \<le> 50 * (50 - 1) div 2"
    by simp
  with assms have
    "vcount (fst (Erdos_Renyi lib 50 100 False r)) = 50"
    "length (get_edgelist (fst (Erdos_Renyi lib 50 100 False r))) = 100"
    unfolding generator_contract_def by blast+
  then show ?thesis
    using node_names_first_last
    by (simp add: startup_graph create_graph_graph length_node_names distinct_node_names
        node_names_nth)
qed

lemma all_pairs_Suc: "all_pairs (Suc n) = all_pairs n @ map (\<lambda>j. (j, n)) [0..<n]"
  by (simp add: all_pairs_def)

lemma length_all_pairs_twice: "2 * length (all_pairs n) = n * (n - 1)"
proof (induction n)
  case 0
  then show ?case by (simp add: all_pairs_def)
next
  case (Suc n)
  then show ?case
    by (cases n) (simp_all add: all_pairs_Suc algebra_simps)
qed

lemma length_all_pairs: "length (all_pairs n) = n * (n - 1) div 2"
  using length_all_pairs_twice [of n] by simp

lemma all_pairs_range: "(a, b) \<in> set (all_pairs n) \<Longrightarrow> a < n \<and> b < n"
  by (auto simp: all_pairs_def)

lemma demo_generator_contract: "generator_contract demo_lib"
  unfolding generator_contract_def
  by (auto simp: demo_lib_def length_all_pairs list_all_iff dest!: in_set_takeD all_pairs_range)

theorem create_graph_counts_and_names_witness:
  "vcount (original_graph (startup demo_lib demo_rnd)) = 50 \<and>
   length (get_edgelist (original_graph (startup demo_lib demo_rnd))) = 100 \<and>
   vs_name (original_graph (startup demo_lib demo_rnd)) ! 49 = ''Node-49''"
  using create_graph_counts_and_names [OF demo_generator_contract, of demo_rnd]
  by simp

section \<open>Colours from one render to the next\<close>

lemma demo_render:
  assumes "wf_graph g" and "length lay = vcount g" and "0 < vcount g"
  shows "create_network_figure demo_lib g lay r =
     (Inr \<lparr>fig_data =
             [edge_trace\<lparr>trace_x := segments fst lay (get_edgelist g),
                         trace_y := segments snd lay (get_edgelist g)\<rparr>,
              node_trace g lay
                (map (\<lambda>i. nth_color r (map (\<lambda>i. i mod 2) [0..<vcount g] ! i)) [0..<vcount g])
                (degree g)],
           fig_layout = figure_layout\<rparr>,
      (\<lambda>i. r (i + 3 * n_clusters (map (\<lambda>i. i mod 2) [0..<vcount g]))))"
proof -
  have cm: "community_multilevel demo_lib g r = (map (\<lambda>i. i mod 2) [0..<vcount g], r)"
    by (simp add: demo_lib_def)
  have m: "length (fst (community_multilevel demo_lib g r)) = vcount g"
    by (simp add: cm)
  show ?thesis
    using create_network_figure_ok [OF assms m] unfolding cm fst_conv snd_conv .
qed

lemma demo_render_twice:
  assumes "wf_graph (original_graph w)" and "length (layout w) = vcount (original_graph w)"
    and "0 < vcount (original_graph w)"
    and "n_clusters (map (\<lambda>i. i mod 2) [0..<vcount (original_graph w)]) = 2"
  shows "\<exists>f1 w1 f2 w2 m1 m2.
     update_original_network_plot demo_lib w () = (Inr f1, w1) \<and>
     update_original_network_plot demo_lib w1 () = (Inr f2, w2) \<and>
     original_graph w1 = original_graph w \<and>
     layout w1 = layout w \<and>
     trace_marker (fig_data f1 ! 1) = Some m1 \<and>
     trace_marker (fig_data f2 ! 1) = Some m2 \<and>
     marker_color m1 ! 0 = nth_color (random_state w) 0 \<and>
     marker_color m2 ! 0 = nth_color (\<lambda>i. random_state w (i + 6)) 0"
proof -
  let ?g = "original_graph w"
  let ?colors = "\<lambda>r. map (\<lambda>i. nth_color r (map (\<lambda>i. i mod 2) [0..<vcount ?g] ! i)) [0..<vcount ?g]"
  let ?fig = "\<lambda>r. \<lparr>fig_data =
             [edge_trace\<lparr>trace_x := segments fst (layout w) (get_edgelist ?g),
                         trace_y := segments snd (layout w) (get_edgelist ?g)\<rparr>,
              node_trace ?g (layout w) (?colors r) (degree ?g)],
           fig_layout = figure_layout\<rparr>"
  let ?r1 = "\<lambda>i. random_state w (i + 6)"
  let ?w1 = "w\<lparr>random_state := ?r1\<rparr>"
  let ?w2 = "w\<lparr>random_state := (\<lambda>i. ?r1 (i + 6))\<rparr>"
  let ?m = "\<lambda>r. \<lparr>marker_size = 10, marker_color = ?colors r, marker_line_width = 2\<rparr>"
  note render = demo_render [OF assms(1-3), unfolded assms(4)]
  have first: "update_original_network_plot demo_lib w () = (Inr (?fig (random_state w)), ?w1)"
    unfolding update_original_network_plot_def render by simp
  have second: "update_original_network_plot demo_lib ?w1 () = (Inr (?fig ?r1), ?w2)"
    unfolding update_original_network_plot_def using render [of ?r1] by simp
  have c: "marker_color (?m r) ! 0 = nth_color r 0" for r
    using assms(3) by simp
  show ?thesis
    apply (rule exI [of _ "?fig (random_state w)"])
    apply (rule exI [of _ ?w1])
    apply (rule exI [of _ "?fig ?r1"])
    apply (rule exI [of _ ?w2])
    apply (rule exI [of _ "?m (random_state w)"])
    apply (rule exI [of _ "?m ?r1"])
    apply (intro conjI)
           apply (rule first)
          apply (rule second)
         apply simp
        apply simp
       apply (simp add: node_trace_def)
      apply (simp add: node_trace_def)
     apply (rule c)
    apply (rule c)
    done
qed

lemma startup_demo_graph:
  "original_graph (startup demo_lib demo_rnd) =
     \<lparr>vcount = 50, get_edgelist = take 100 (all_pairs 50), vs_name = node_names\<rparr>"
  by (simp add: startup_graph create_graph_graph demo_lib_def)

lemma startup_demo_layout:
  "layout (startup demo_lib demo_rnd) = map (\<lambda>i. (real i, real (i * i))) [0..<50]"
  by (simp add: startup_layout create_graph_def demo_lib_def)

lemma startup_demo_rnd:
  "random_state (startup demo_lib demo_rnd) = (\<lambda>i. demo_rnd (Suc i + 100))"
  by (simp add: startup_def create_graph_def demo_lib_def)

lemma startup_demo_wf: "wf_graph (original_graph (startup demo_lib demo_rnd))"
  unfolding startup_demo_graph
  by (auto simp: wf_graph_def length_node_names list_all_iff dest!: in_set_takeD all_pairs_range)

lemma startup_demo_clusters:
  "n_clusters (map (\<lambda>i. i mod 2) [0..<vcount (original_graph (startup demo_lib demo_rnd))]) = 2"
proof -
  have "n_clusters (map (\<lambda>i. i mod 2) [0..<50]) = 2"
    by code_simp
  then show ?thesis
    by (simp add: startup_demo_graph)
qed

lemma startup_first_color:
  "nth_color (random_state (startup demo_lib demo_rnd)) 0 = ''#a4c9ee''"
  unfolding startup_demo_rnd
  by (simp add: nth_color_def demo_rnd_def format_color_def format_02x_def
      hex_small hex_byte hexdigit_def)

lemma startup_second_color:
  "nth_color (\<lambda>i. random_state (startup demo_lib demo_rnd) (i + 6)) 0 = ''#82a7cc''"
  unfolding startup_demo_rnd
  by (simp add: nth_color_def demo_rnd_def format_color_def format_02x_def
      hex_small hex_byte hexdigit_def)

text \<open>
  Claim C9. Rendering the full graph twice need not give the same colours. In the
  session that start-up creates with the stand-in library and the random stream
  \<open>demo_rnd\<close>, two successive calls of the full-graph callback both return a figure, the
  graph and layout are the same for both, and vertex 0 is coloured \<open>#a4c9ee\<close> by the
  first and \<open>#82a7cc\<close> by the second: each call draws its colours anew from the random
  state the previous one left.
\<close>

theorem update_original_network_plot_colors_change:
  "\<exists>f1 w1 f2 w2 m1 m2.
     update_original_network_plot demo_lib (startup demo_lib demo_rnd) () = (Inr f1, w1) \<and>
     update_original_network_plot demo_lib w1 () = (Inr f2, w2) \<and>
     original_graph w1 = original_graph (startup demo_lib demo_rnd) \<and>
     layout w1 = layout (startup demo_lib demo_rnd) \<and>
     trace_marker (fig_data f1 ! 1) = Some m1 \<and>
     trace_marker (fig_data f2 ! 1) = Some m2 \<and>
     marker_color m1 ! 0 = ''#a4c9ee'' \<and>
     marker_color m2 ! 0 = ''#82a7cc'' \<and>
     marker_color m1 ! 0 \<noteq> marker_color m2 ! 0"
proof -
  have len: "length (layout (startup demo_lib demo_rnd)) =
      vcount (original_graph (startup demo_lib demo_rnd))"
    by (simp add: startup_demo_graph startup_demo_layout)
  have pos: "0 < vcount (original_graph (startup demo_lib demo_rnd))"
    by (simp add: startup_demo_graph)
  from demo_render_twice [OF startup_demo_wf len pos startup_demo_clusters]
  obtain f1 w1 f2 w2 m1 m2 where
    r: "update_original_network_plot demo_lib (startup demo_lib demo_rnd) () = (Inr f1, w1)"
      "update_original_network_plot demo_lib w1 () = (Inr f2, w2)"
      "original_graph w1 = original_graph (startup demo_lib demo_rnd)"
      "layout w1 = layout (startup demo_lib demo_rnd)"
      "trace_marker (fig_data f1 ! 1) = Some m1"
      "trace_marker (fig_data f2 ! 1) = Some m2"
    and c: "marker_color m1 ! 0 = ''#a4c9ee''" "marker_color m2 ! 0 = ''#82a7cc''"
    unfolding startup_first_color startup_second_color by blast
  have "marker_color m1 ! 0 \<noteq> marker_color m2 ! 0"
    unfolding c by simp
  with r c show ?thesis
    by blast
qed

section \<open>The callbacks return a figure\<close>

lemma create_network_figure_returns:
  assumes "wf_graph g" and "length lay = vcount g" and "0 < vcount g"
    and "community_contract lib"
  shows "\<exists>fig r'. create_network_figure lib g lay r = (Inr fig, r') \<and>
     length (fig_data fig) = 2 \<and> fig_layout fig = figure_layout"
proof -
  have "length (fst (community_multilevel lib g r)) = vcount g"
    using assms(4) by (simp add: community_contract_def)
  from create_network_figure_ok [OF assms(1-3) this] show ?thesis
    by simp
qed

text \<open>
  A click on a valid node index returns a figure. Given a layout with one row per
  vertex and a membership vector with one entry per vertex, none of the failures of
  the figure builder can occur on the subgraph of a click: the subgraph is well formed
  and has at least the clicked vertex.
\<close>

theorem update_subgraph_plot_returns_figure:
  assumes "wf_graph (original_graph w)"
    and "0 \<le> k" and "k < int (vcount (original_graph w))"
    and "layout_contract lib" and "community_contract lib"
  shows "\<exists>fig w'.
     update_subgraph_plot lib w (Some (ClickData (Point k # ps))) = (Inr fig, w') \<and>
     length (fig_data fig) = 2 \<and> fig_layout fig = figure_layout"
proof -
  let ?g = "original_graph w"
  let ?nbs = "nat k # filter (\<lambda>u. u \<noteq> nat k \<and> adjacent ?g (nat k) u) [0..<vcount ?g]"
  have v: "nat k < vcount ?g"
    using assms(2,3) by simp
  have nb: "neighborhood ?g k = Inr ?nbs"
    using assms(2,3) by (rule neighborhood_valid)
  have range: "list_all (\<lambda>u. u < vcount ?g) ?nbs"
    using v by (rule neighborhood_in_range)
  obtain sg where sg: "subgraph ?g ?nbs = Inr sg"
    using subgraph_ok [OF range] by blast
  have wf: "wf_graph sg"
    using range sg by (rule subgraph_wf)
  have "nat k \<in> set (kept_vertices ?g ?nbs)"
    using set_kept_vertices [OF range] by simp
  then have "kept_vertices ?g ?nbs \<noteq> []"
    by auto
  then have pos: "0 < vcount sg"
    using sg by (auto simp: subgraph_ok [OF range])
  obtain lay r1 where lay: "layout_fr lib sg (random_state w) = (lay, r1)"
    by (cases "layout_fr lib sg (random_state w)")
  have "length (fst (layout_fr lib sg (random_state w))) = vcount sg"
    using assms(4) by (simp add: layout_contract_def)
  then have len: "length lay = vcount sg"
    by (simp add: lay)
  from create_network_figure_returns [OF wf len pos assms(5), of r1]
  obtain fig r' where "create_network_figure lib sg lay r1 = (Inr fig, r')"
    "length (fig_data fig) = 2" "fig_layout fig = figure_layout"
    by blast
  then show ?thesis
    by (simp add: update_subgraph_plot_def nb sg lay)
qed

theorem update_subgraph_plot_returns_figure_witness:
  "\<exists>fig w'.
     update_subgraph_plot demo_lib demo_world (Some (ClickData [Point 1])) = (Inr fig, w') \<and>
     length (fig_data fig) = 2"
proof -
  have wf: "wf_graph (original_graph demo_world)"
    by (simp add: demo_world_graph demo_graph_wf)
  have k: "(1::int) < int (vcount (original_graph demo_world))"
    by (simp add: demo_world_graph demo_graph_def)
  have l: "layout_contract demo_lib"
    by (simp add: layout_contract_def demo_lib_def)
  have c: "community_contract demo_lib"
    by (simp add: community_contract_def demo_lib_def)
  from update_subgraph_plot_returns_figure [OF wf _ k l c, of "[]"] show ?thesis
    by auto
qed

lemma startup_wf:
  assumes "generator_contract lib"
  shows "wf_graph (original_graph (startup lib r))"
proof -
  have "(100::nat) \<le> 50 * (50 - 1) div 2"
    by simp
  with assms have
    "vcount (fst (Erdos_Renyi lib 50 100 False r)) = 50"
    "list_all (\<lambda>e. fst e < 50 \<and> snd e < 50)
       (get_edgelist (fst (Erdos_Renyi lib 50 100 False r)))"
    unfolding generator_contract_def by blast+
  then show ?thesis
    by (simp add: startup_graph create_graph_graph wf_graph_def length_node_names)
qed

lemma startup_layout_length:
  assumes "layout_contract lib"
  shows "length (layout (startup lib r)) = vcount (original_graph (startup lib r))"
  using assms
  by (simp add: startup_def create_graph_def case_prod_beta Let_def layout_contract_def)

text \<open>
  The full-graph callback returns a figure in the session created at start-up, after
  any sequence of callbacks: the start-up graph is well formed and has 50 vertices, and
  the stored layout has one row for each.
\<close>

theorem update_original_network_plot_returns_figure:
  assumes "generator_contract lib" and "layout_contract lib" and "community_contract lib"
  shows "\<exists>fig w'.
     update_original_network_plot lib (serve lib (startup lib r) cbs) relayoutData =
       (Inr fig, w') \<and>
     length (fig_data fig) = 2 \<and> fig_layout fig = figure_layout"
proof -
  let ?w = "serve lib (startup lib r) cbs"
  have g: "original_graph ?w = original_graph (startup lib r)"
    by (rule serve_graph)
  have wf: "wf_graph (original_graph ?w)"
    unfolding g using assms(1) by (rule startup_wf)
  have len: "length (layout ?w) = vcount (original_graph ?w)"
    unfolding g serve_layout using assms(2) by (rule startup_layout_length)
  have "(100::nat) \<le> 50 * (50 - 1) div 2"
    by simp
  with assms(1) have "vcount (fst (Erdos_Renyi lib 50 100 False r)) = 50"
    unfolding generator_contract_def by blast
  then have pos: "0 < vcount (original_graph ?w)"
    unfolding g by (simp add: startup_graph create_graph_graph)
  from create_network_figure_returns [OF wf len pos assms(3), of "random_state ?w"]
  show ?thesis
    by (auto simp: update_original_network_plot_def)
qed

theorem update_original_network_plot_returns_figure_witness:
  "\<exists>fig w'.
     update_original_network_plot demo_lib (startup demo_lib demo_rnd) () = (Inr fig, w') \<and>
     length (fig_data fig) = 2"
proof -
  have l: "layout_contract demo_lib"
    by (simp add: layout_contract_def demo_lib_def)
  have c: "community_contract demo_lib"
    by (simp add: community_contract_def demo_lib_def)
  from update_original_network_plot_returns_figure
    [OF demo_generator_contract l c, of demo_rnd "[]" "()"]
  show ?thesis
    by (auto simp: serve_def)
qed

end
